theory Spec2Isabelle
  imports Complex_Main "HOL-Library.Product_Lexorder" "HOL-Library.Multiset"
begin

section \<open>The default layout provider of MovieVis\<close>

text \<open>
  A shallow embedding of \<^verbatim>\<open>DefaultLayoutProvider.cpp\<close>. The C++ type
  \<^verbatim>\<open>double\<close> is modelled by \<^typ>\<open>real\<close>: all arithmetic is exact, rounding is
  not part of the model. A \<^verbatim>\<open>shared_ptr\<close> that may be null (the result of
  \<^verbatim>\<open>weak_ptr::lock\<close>) is an \<^typ>\<open>'a option\<close>; dereferencing \<open>None\<close> is the
  error \<open>NullDereference\<close>.
\<close>

subsection \<open>Dates and the time axis\<close>

text \<open>
  Of \<^verbatim>\<open>boost::gregorian::date\<close> the layout reads \<^verbatim>\<open>year()\<close> and
  \<^verbatim>\<open>day_of_year()\<close> only. The day of the year counts from 1 (the first of January) to
  365, or to 366 in a leap year.
\<close>

record date =
  year :: nat
  day_of_year :: nat

definition is_leap_year :: "nat \<Rightarrow> bool" where
  "is_leap_year y = (y mod 4 = 0 \<and> (y mod 100 \<noteq> 0 \<or> y mod 400 = 0))"

definition valid_date :: "date \<Rightarrow> bool" where
  "valid_date d =
     (1 \<le> day_of_year d \<and> day_of_year d \<le> (if is_leap_year (year d) then 366 else 365))"

text \<open>Chronological order of two dates: by year, then by day of the year.\<close>

definition date_key :: "date \<Rightarrow> nat \<times> nat" where
  "date_key d = (year d, day_of_year d)"

definition date_less :: "date \<Rightarrow> date \<Rightarrow> bool" where
  "date_less d1 d2 = (date_key d1 < date_key d2)"

definition EARLIEST_YEAR :: nat where
  "EARLIEST_YEAR = 1985"

definition LATEST_YEAR :: nat where
  "LATEST_YEAR = 2009"

definition UNITS_PER_YEAR :: real where
  "UNITS_PER_YEAR = 5.0 / real (LATEST_YEAR - EARLIEST_YEAR)"

definition dateAsYear :: "date \<Rightarrow> real" where
  "dateAsYear theDate = real (year theDate) + real (day_of_year theDate) / 365.0"

definition getDateYPosition :: "date \<Rightarrow> real" where
  "getDateYPosition theDate =
     (let yearSpan = real (LATEST_YEAR - EARLIEST_YEAR) * UNITS_PER_YEAR;
          yearsAfterEarliestYear = dateAsYear theDate - real EARLIEST_YEAR
      in yearsAfterEarliestYear * UNITS_PER_YEAR - (yearSpan / 2))"

definition in_calibration_window :: "date \<Rightarrow> bool" where
  "in_calibration_window d = (EARLIEST_YEAR \<le> year d \<and> year d \<le> LATEST_YEAR)"

subsection \<open>Directors and the director axis\<close>

text \<open>
  A person is known to the layout by identity only; identities are numbers. A director
  handed to \<^verbatim>\<open>getDirectorXPosition\<close> is the result of locking a weak pointer, so it is
  an optional identity, \<open>None\<close> for the null pointer of an expired reference.

  The table \<^verbatim>\<open>directorXPositions\<close> is a hash map. It is modelled by an association list
  in insertion order: \<^verbatim>\<open>find\<close> is \<^const>\<open>map_of\<close>, \<^verbatim>\<open>size()\<close> is the length, and
  \<^verbatim>\<open>operator[]\<close> is only ever used on a key that \<^verbatim>\<open>find\<close> did not find, so it appends.
  The hash configuration \<^verbatim>\<open>Person::hashConf\<close> is not part of the source file; keys are
  compared by identity of the pointer, the null pointer being a key like any other.
\<close>

type_synonym person = nat

type_synonym directorTable = "(person option \<times> real) list"

definition DISTANCE :: real where
  "DISTANCE = 4.0"

definition getDirectorXPosition :: "person option \<Rightarrow> directorTable \<Rightarrow> real \<times> directorTable" where
  "getDirectorXPosition director directorXPositions =
     (case map_of directorXPositions director of
        None \<Rightarrow>
          (let xPosition = DISTANCE * real (length directorXPositions)
           in (xPosition, directorXPositions @ [(director, xPosition)]))
      | Some xPosition \<Rightarrow> (xPosition, directorXPositions))"

text \<open>
  A run of queries against the table, in order: the positions returned, and the table
  after the last query.
\<close>

fun queryDirectors :: "person option list \<Rightarrow> directorTable \<Rightarrow> real list \<times> directorTable" where
  "queryDirectors [] tbl = ([], tbl)"
| "queryDirectors (d # ds) tbl =
     (let (xPosition, tbl1) = getDirectorXPosition d tbl;
          (xs, tbl2) = queryDirectors ds tbl1
      in (xPosition # xs, tbl2))"

text \<open>
  The distinct directors of a run of queries, each at the place of its first query, and
  the place of a director among them (counting from 0).
\<close>

fun firstQueried :: "person option list \<Rightarrow> person option list \<Rightarrow> person option list" where
  "firstQueried seen [] = seen"
| "firstQueried seen (d # ds) =
     (if d \<in> set seen then firstQueried seen ds else firstQueried (seen @ [d]) ds)"

fun placeOf :: "'a \<Rightarrow> 'a list \<Rightarrow> nat" where
  "placeOf a [] = 0"
| "placeOf a (b # bs) = (if a = b then 0 else Suc (placeOf a bs))"

text \<open>
  The table that a run of queries builds from the directors \<open>seen\<close> so far: the
  director at place \<open>i\<close> holds the position \<open>DISTANCE * i\<close>.
\<close>

definition tableOf :: "person option list \<Rightarrow> directorTable" where
  "tableOf seen = zip seen (map (\<lambda>i. DISTANCE * real i) [0..<length seen])"

subsection \<open>Geometric primitives\<close>

text \<open>
  Points, vectors and cubic Bezier curves come from a geometry library whose code is not
  in the source file. The layout uses the difference of two points, the sum of a point
  and a vector, the product of a number and a vector, the normalisation of a vector and
  the subdivision of a curve.
\<close>

datatype Point3d = Point3d (pt_x: real) (pt_y: real) (pt_z: real)

datatype Vector3d = Vector3d (vec_x: real) (vec_y: real) (vec_z: real)

text \<open>Modelled from the spec: the operators of the geometry library, componentwise.\<close>

definition point_minus :: "Point3d \<Rightarrow> Point3d \<Rightarrow> Vector3d" where
  "point_minus a b = Vector3d (pt_x a - pt_x b) (pt_y a - pt_y b) (pt_z a - pt_z b)"

definition point_plus :: "Point3d \<Rightarrow> Vector3d \<Rightarrow> Point3d" where
  "point_plus a v = Point3d (pt_x a + vec_x v) (pt_y a + vec_y v) (pt_z a + vec_z v)"

definition vector_scale :: "real \<Rightarrow> Vector3d \<Rightarrow> Vector3d" where
  "vector_scale k v = Vector3d (k * vec_x v) (k * vec_y v) (k * vec_z v)"

definition vector_length :: "Vector3d \<Rightarrow> real" where
  "vector_length v = sqrt (vec_x v * vec_x v + vec_y v * vec_y v + vec_z v * vec_z v)"

text \<open>
  Modelled from the spec: \<^verbatim>\<open>Vector3d::normalize\<close> (not in the source file) scales a
  vector to unit length. For the zero vector the quotient is 0/0; the model then yields
  the zero vector, and every statement about a direction assumes a vector that is
  not zero.
\<close>

definition normalize_vec :: "Vector3d \<Rightarrow> Vector3d" where
  "normalize_vec v = vector_scale (1 / vector_length v) v"

text \<open>Modelled from the spec: \<^verbatim>\<open>peek::sign\<close> (not in the source file), the sign of a number.\<close>

definition sign :: "real \<Rightarrow> real" where
  "sign a = (if a < 0 then - 1 else if 0 < a then 1 else 0)"

datatype BezierCurve =
  BezierCurve (getP0: Point3d) (getP1: Point3d) (getP2: Point3d) (getP3: Point3d)

text \<open>
  Modelled from the spec: \<^verbatim>\<open>BezierCurve::subdivideAt\<close> (not in the source file) is the
  subdivision of de Casteljau at the parameter \<open>t\<close>: the two halves share the point of
  the curve at \<open>t\<close>, the first starts where the curve starts and the second ends where
  the curve ends.
\<close>

definition lerp :: "Point3d \<Rightarrow> Point3d \<Rightarrow> real \<Rightarrow> Point3d" where
  "lerp a b t =
     Point3d ((1 - t) * pt_x a + t * pt_x b) ((1 - t) * pt_y a + t * pt_y b)
       ((1 - t) * pt_z a + t * pt_z b)"

definition subdivideAt :: "BezierCurve \<Rightarrow> real \<Rightarrow> BezierCurve \<times> BezierCurve" where
  "subdivideAt c t =
     (let q0 = lerp (getP0 c) (getP1 c) t;
          q1 = lerp (getP1 c) (getP2 c) t;
          q2 = lerp (getP2 c) (getP3 c) t;
          r0 = lerp q0 q1 t;
          r1 = lerp q1 q2 t;
          s = lerp r0 r1 t
      in (BezierCurve (getP0 c) q0 r0 s, BezierCurve s r1 q2 (getP3 c)))"

subsection \<open>Movies, persons and the layout state\<close>

text \<open>
  Modelled from the spec: the classes \<^verbatim>\<open>Movie\<close>, \<^verbatim>\<open>Person\<close>, \<^verbatim>\<open>MoviePair\<close> and
  \<^verbatim>\<open>ActorCurve\<close> are declared outside the source file; the records hold what the
  layout reads of them, under the names of the accessors it calls. An
  object is its record: two movies are the same object when their records are equal
  (\<open>movieId\<close> tells two movies with equal data apart).

  A movie's director is a weak pointer; the field \<open>getDirector\<close> is what locking it
  gives, \<open>None\<close> when the reference is expired. The movies an actor starred in are weak
  pointers too.
\<close>

record Movie =
  movieId :: nat
  getReleaseDate :: date
  getDirector :: "person option"

record Person =
  personId :: person
  getMoviesStarredIn :: "Movie option list"

datatype MoviePair = MoviePair (getFirstMovie: Movie) (getSecondMovie: Movie)

text \<open>
  Modelled from the spec: the equality of \<^verbatim>\<open>MoviePair\<close> keys (the hash configuration of
  \<^verbatim>\<open>actorCurvesByMoviePairMap_t\<close> is not in the source file) is that of unordered pairs.
\<close>

definition moviePairEq :: "MoviePair \<Rightarrow> MoviePair \<Rightarrow> bool" where
  "moviePairEq p q =
     ((getFirstMovie p = getFirstMovie q \<and> getSecondMovie p = getSecondMovie q) \<or>
      (getFirstMovie p = getSecondMovie q \<and> getSecondMovie p = getFirstMovie q))"

text \<open>
  Modelled from the spec: an \<^verbatim>\<open>ActorCurve\<close> holds its actor and one curve when it is
  built, and two curves after \<^verbatim>\<open>setCurves\<close>.
\<close>

record ActorCurve =
  getActor :: person
  getFirstCurve :: BezierCurve
  getSecondCurve :: "BezierCurve option"

definition newActorCurve :: "person \<Rightarrow> BezierCurve \<Rightarrow> ActorCurve" where
  "newActorCurve actor curve =
     \<lparr>getActor = actor, getFirstCurve = curve, getSecondCurve = None\<rparr>"

definition setCurves :: "BezierCurve \<Rightarrow> BezierCurve \<Rightarrow> ActorCurve \<Rightarrow> ActorCurve" where
  "setCurves b1 b2 c = c\<lparr>getFirstCurve := b1, getSecondCurve := Some b2\<rparr>"

text \<open>
  The two index maps hold shared pointers to the same \<^verbatim>\<open>ActorCurve\<close> objects, and the
  overlap resolver changes the objects through one of the maps. So the objects live in a
  store, \<open>curveStore\<close>, the address of an object is its index there, and the maps hold
  addresses. Both maps are association lists in insertion order, each key once.
\<close>

type_synonym address = nat

record layout =
  directorXPositions :: directorTable
  curveStore :: "ActorCurve list"
  actorCurvesByActor :: "(person \<times> address list) list"
  actorCurvesByMoviePair :: "(MoviePair \<times> address list) list"

definition emptyLayout :: layout where
  "emptyLayout =
     \<lparr>directorXPositions = [], curveStore = [], actorCurvesByActor = [],
      actorCurvesByMoviePair = []\<rparr>"

datatype error = NullDereference

text \<open>
  \<open>findEntry\<close> is \<^verbatim>\<open>find\<close> on a map whose keys are compared with \<open>eq\<close>;
  \<open>pushBack\<close> is the lookup of \<^verbatim>\<open>addActorCurve\<close>: the vector of the key, created empty
  under that key when \<^verbatim>\<open>find\<close> finds none, gets the address appended.
\<close>

fun findEntry :: "('k \<Rightarrow> 'k \<Rightarrow> bool) \<Rightarrow> 'k \<Rightarrow> ('k \<times> 'v) list \<Rightarrow> 'v option" where
  "findEntry eq k [] = None"
| "findEntry eq k ((k', v) # rest) = (if eq k' k then Some v else findEntry eq k rest)"

fun pushBack ::
  "('k \<Rightarrow> 'k \<Rightarrow> bool) \<Rightarrow> 'k \<Rightarrow> address \<Rightarrow> ('k \<times> address list) list \<Rightarrow> ('k \<times> address list) list"
where
  "pushBack eq k a [] = [(k, [a])]"
| "pushBack eq k a ((k', v) # rest) =
     (if eq k' k then (k', v @ [a]) # rest else (k', v) # pushBack eq k a rest)"

definition addActorCurve :: "address \<Rightarrow> MoviePair \<Rightarrow> layout \<Rightarrow> layout" where
  "addActorCurve actorCurve moviePair s =
     (let actor = getActor (curveStore s ! actorCurve)
      in s\<lparr>actorCurvesByActor := pushBack (=) actor actorCurve (actorCurvesByActor s),
            actorCurvesByMoviePair :=
              pushBack moviePairEq moviePair actorCurve (actorCurvesByMoviePair s)\<rparr>)"

text \<open>Allocation of a new \<^verbatim>\<open>ActorCurve\<close> object: its address and the new state.\<close>

definition allocActorCurve :: "ActorCurve \<Rightarrow> layout \<Rightarrow> address \<times> layout" where
  "allocActorCurve c s = (length (curveStore s), s\<lparr>curveStore := curveStore s @ [c]\<rparr>)"

definition getActorCurves :: "person \<Rightarrow> layout \<Rightarrow> ActorCurve list" where
  "getActorCurves actor s =
     (case findEntry (=) actor (actorCurvesByActor s) of
        None \<Rightarrow> []
      | Some addrs \<Rightarrow> map (\<lambda>a. curveStore s ! a) addrs)"

subsection \<open>The coordinate mapper\<close>

text \<open>
  \<^verbatim>\<open>getMoviePoint\<close> dereferences the movie pointer it is given. The model takes the
  movie itself; a caller that holds the result of a lock answers \<open>NullDereference\<close>
  in place of the call when the result is null.
\<close>

definition getMoviePoint :: "Movie \<Rightarrow> real \<Rightarrow> layout \<Rightarrow> Point3d \<times> layout" where
  "getMoviePoint movie z s =
     (let (x, tbl) = getDirectorXPosition (getDirector movie) (directorXPositions s);
          y = getDateYPosition (getReleaseDate movie)
      in (Point3d x y z, s\<lparr>directorXPositions := tbl\<rparr>))"

subsection \<open>The curve builder\<close>

definition MAX_DELTA :: real where
  "MAX_DELTA = 5.0"

text \<open>
  Modelled from the spec: \<^verbatim>\<open>Movie::weakPtrReleaseDateSortPredicate\<close> (not in the source
  file) orders weak pointers to movies by release date, ascending. It has to lock both
  pointers to read the dates, so it dereferences null when one is expired; a vector of
  one element is sorted without a comparison.

  \<^verbatim>\<open>std::sort\<close> promises no order for movies of equal date; the model keeps them in
  the order of the list. An order that the code walks is a list in date order, and the
  model returns a list in date order as it is: what the code does with a list is what
  the model does with the list in the order the code walks it, and the properties below
  are about every list.
\<close>

definition sortByReleaseDate :: "Movie option list \<Rightarrow> error + Movie option list" where
  "sortByReleaseDate ws =
     (if length ws \<le> 1 then Inr ws
      else if None \<in> set ws then Inl NullDereference
      else Inr (sort_key (\<lambda>w. date_key (getReleaseDate (the w))) ws))"

text \<open>
  The shape of one segment: the change of the handles along the time axis, from the two
  anchors and the two directors that the loop compares, and the curve itself.
\<close>

definition curveDelta :: "Point3d \<Rightarrow> Point3d \<Rightarrow> person option \<Rightarrow> person option \<Rightarrow> real" where
  "curveDelta lastAnchor anchor lastDirector director =
     (let nominalDelta = pt_y anchor - pt_y lastAnchor;
          nominalDelta = (if lastDirector = director then nominalDelta / 3.0 else nominalDelta)
      in if \<bar>nominalDelta\<bar> \<le> MAX_DELTA then nominalDelta else MAX_DELTA * sign nominalDelta)"

definition segmentCurve :: "Point3d \<Rightarrow> Point3d \<Rightarrow> real \<Rightarrow> BezierCurve" where
  "segmentCurve lastAnchor anchor delta =
     (let handle1 = Point3d (pt_x lastAnchor) (pt_y lastAnchor + delta) (pt_z lastAnchor);
          handle2 = Point3d (pt_x anchor) (pt_y anchor - delta) (pt_z anchor)
      in BezierCurve lastAnchor handle1 handle2 anchor)"

text \<open>
  The body of the loop of \<^verbatim>\<open>initActorCurves\<close>, for the movie \<open>moviePtr\<close> that has
  been locked: the new value of \<^verbatim>\<open>lastAnchor\<close> and the new state.
\<close>

definition walkStep :: "person \<Rightarrow> Movie \<Rightarrow> Point3d \<Rightarrow> Movie \<Rightarrow> layout \<Rightarrow> Point3d \<times> layout" where
  "walkStep actor lastMoviePtr lastAnchor moviePtr s =
     (let (anchor, s1) = getMoviePoint moviePtr 0.0 s;
          delta = curveDelta lastAnchor anchor (getDirector lastMoviePtr) (getDirector moviePtr);
          moviePair = MoviePair lastMoviePtr moviePtr;
          (actorCurve, s2) =
            allocActorCurve (newActorCurve actor (segmentCurve lastAnchor anchor delta)) s1;
          s3 = addActorCurve actorCurve moviePair s2
      in (anchor, s3))"

text \<open>
  The loop over the movies after the first. The loop assigns \<^verbatim>\<open>lastAnchor = anchor\<close>
  at the end of its body and nothing else: \<^verbatim>\<open>lastMoviePtr\<close> stays the first movie of
  the sorted vector through all iterations.
\<close>

fun walkMovies :: "person \<Rightarrow> Movie \<Rightarrow> Point3d \<Rightarrow> Movie option list \<Rightarrow> layout \<Rightarrow> error + layout" where
  "walkMovies actor lastMoviePtr lastAnchor [] s = Inr s"
| "walkMovies actor lastMoviePtr lastAnchor (w # rest) s =
     (case w of
        None \<Rightarrow> Inl NullDereference
      | Some moviePtr \<Rightarrow>
          (let (anchor, s3) = walkStep actor lastMoviePtr lastAnchor moviePtr s
           in walkMovies actor lastMoviePtr anchor rest s3))"

definition initActorCurves :: "Person \<Rightarrow> layout \<Rightarrow> error + layout" where
  "initActorCurves actor s =
     (let moviesStarredIn = getMoviesStarredIn actor
      in if length moviesStarredIn = 0 then Inr s
         else
           (case sortByReleaseDate moviesStarredIn of
              Inl e \<Rightarrow> Inl e
            | Inr [] \<Rightarrow> Inr s
            | Inr (None # rest) \<Rightarrow> Inl NullDereference
            | Inr (Some lastMoviePtr # rest) \<Rightarrow>
                (let (lastAnchor, s1) = getMoviePoint lastMoviePtr 0.0 s
                 in walkMovies (personId actor) lastMoviePtr lastAnchor rest s1)))"

subsection \<open>The overlap resolver\<close>

definition offsetIncrement :: real where
  "offsetIncrement = 0.05"

text \<open>
  \<^verbatim>\<open>actorIndex\<close> is an \<^verbatim>\<open>unsigned int\<close> of 32 bits: the sum \<^verbatim>\<open>actorIndex+1\<close> and the
  increment \<^verbatim>\<open>actorIndex++\<close> wrap around at \<open>2 ^ 32\<close>.
\<close>

definition offsetAmount :: "nat \<Rightarrow> real" where
  "offsetAmount actorIndex =
     (if actorIndex = 0 then 0.0
      else real (((actorIndex + 1) mod 2 ^ 32) div 2) * offsetIncrement *
           (if actorIndex mod 2 = 0 then - 1.0 else 1.0))"

text \<open>
  The body of the inner loop in two parts: the split of the curve of an object with the
  shift of the control points around the junction by \<open>offsetVector\<close>, and the choice of
  \<open>offsetVector\<close> for the object at \<open>actorIndex\<close>.
\<close>

definition splitAndShift :: "Vector3d \<Rightarrow> ActorCurve \<Rightarrow> ActorCurve" where
  "splitAndShift offsetVector actorCurve =
     (let bp = subdivideAt (getFirstCurve actorCurve) 0.5;
          b1 = fst bp;
          b2 = snd bp;
          newB1 = BezierCurve (getP0 b1) (getP1 b1) (point_plus (getP2 b1) offsetVector)
                    (point_plus (getP3 b1) offsetVector);
          newB2 = BezierCurve (point_plus (getP0 b2) offsetVector)
                    (point_plus (getP1 b2) offsetVector) (getP2 b2) (getP3 b2)
      in setCurves newB1 newB2 actorCurve)"

definition divergeCurve :: "Vector3d \<Rightarrow> nat \<Rightarrow> ActorCurve \<Rightarrow> ActorCurve" where
  "divergeCurve offsetDirection actorIndex actorCurve =
     (let offsetAmount = offsetAmount actorIndex;
          offsetVector = vector_scale offsetAmount offsetDirection
      in splitAndShift offsetVector actorCurve)"

text \<open>
  The inner loop, over the addresses of one group, changing the objects in the store. An
  address in a vector is a shared pointer to a live object, so it lies within the store.
\<close>

fun divergeCurves :: "Vector3d \<Rightarrow> nat \<Rightarrow> address list \<Rightarrow> ActorCurve list \<Rightarrow> ActorCurve list" where
  "divergeCurves offsetDirection actorIndex [] store = store"
| "divergeCurves offsetDirection actorIndex (a # rest) store =
     divergeCurves offsetDirection ((actorIndex + 1) mod 2 ^ 32) rest
       (store[a := divergeCurve offsetDirection actorIndex (store ! a)])"

definition offsetDirectionOf :: "Point3d \<Rightarrow> Point3d \<Rightarrow> Vector3d" where
  "offsetDirectionOf m1 m2 =
     (let v = point_minus m2 m1
      in normalize_vec (Vector3d (- vec_y v) (vec_x v) (vec_z v)))"

text \<open>
  The outer loop, over the entries of \<^verbatim>\<open>actorCurvesByMoviePair\<close>. The map itself does not
  change while the loop runs, so the loop goes over the entries as they are at its start
  (in the order of the association list; a hash map promises no order).
\<close>

fun divergePairs :: "(MoviePair \<times> address list) list \<Rightarrow> layout \<Rightarrow> layout" where
  "divergePairs [] s = s"
| "divergePairs ((moviePairPtr, actorCurveVectorPtr) # rest) s =
     (if length actorCurveVectorPtr \<le> 1 then divergePairs rest s
      else
        (let (m1, s1) = getMoviePoint (getFirstMovie moviePairPtr) 0.0 s;
             (m2, s2) = getMoviePoint (getSecondMovie moviePairPtr) 0.0 s1;
             offsetDirection = offsetDirectionOf m1 m2
         in divergePairs rest
              (s2\<lparr>curveStore :=
                    divergeCurves offsetDirection 0 actorCurveVectorPtr (curveStore s2)\<rparr>)))"

definition divergeOverlappingCurves :: "layout \<Rightarrow> layout" where
  "divergeOverlappingCurves s = divergePairs (actorCurvesByMoviePair s) s"

subsection \<open>The whole computation\<close>

fun initActors :: "Person list \<Rightarrow> layout \<Rightarrow> error + layout" where
  "initActors [] s = Inr s"
| "initActors (actor # actors) s =
     (case initActorCurves actor s of
        Inl e \<Rightarrow> Inl e
      | Inr s1 \<Rightarrow> initActors actors s1)"

definition init :: "Person list \<Rightarrow> error + layout" where
  "init actors =
     (case initActors actors emptyLayout of
        Inl e \<Rightarrow> Inl e
      | Inr s \<Rightarrow> Inr (divergeOverlappingCurves s))"

subsection \<open>Notions used to state the properties\<close>

text \<open>
  The addresses registered under the movie pairs, group after group; the addresses
  registered under an actor; whether a director has a place in a table; and the offset
  direction of a movie pair, from the points that the coordinate mapper gives its two
  movies at \<open>z = 0\<close>.
\<close>

definition pairAddresses :: "layout \<Rightarrow> address list" where
  "pairAddresses s = concat (map snd (actorCurvesByMoviePair s))"

definition actorAddresses :: "person \<Rightarrow> layout \<Rightarrow> address list" where
  "actorAddresses actor s =
     (case findEntry (=) actor (actorCurvesByActor s) of None \<Rightarrow> [] | Some addrs \<Rightarrow> addrs)"

definition directorKnown :: "directorTable \<Rightarrow> person option \<Rightarrow> bool" where
  "directorKnown tbl d = (map_of tbl d \<noteq> None)"

definition pairDirection :: "layout \<Rightarrow> MoviePair \<Rightarrow> Vector3d" where
  "pairDirection s moviePair =
     offsetDirectionOf (fst (getMoviePoint (getFirstMovie moviePair) 0 s))
       (fst (getMoviePoint (getSecondMovie moviePair) 0 s))"

definition pairsKnown :: "directorTable \<Rightarrow> (MoviePair \<times> address list) list \<Rightarrow> bool" where
  "pairsKnown tbl es =
     (\<forall>e\<in>set es. directorKnown tbl (getDirector (getFirstMovie (fst e))) \<and>
                  directorKnown tbl (getDirector (getSecondMovie (fst e))))"

text \<open>
  What the curve builder keeps true of the state: every address registered under a movie
  pair is registered once and is the address of an object of the store, the directors of
  the movies of every pair have their place on the director axis, and no object has
  been split.
\<close>

definition wellFormed :: "layout \<Rightarrow> bool" where
  "wellFormed s =
     (distinct (pairAddresses s) \<and>
      set (pairAddresses s) = {0..<length (curveStore s)} \<and>
      pairsKnown (directorXPositions s) (actorCurvesByMoviePair s) \<and>
      (\<forall>c\<in>set (curveStore s). getSecondCurve c = None))"

subsection \<open>The shape of a segment in the words of the specification\<close>

text \<open>
  The specification compares the directors of the previous and the current movie of the
  walk, an unresolved director being unequal to every director, divides the nominal
  delta by 3 when they are equal, and clamps the result to \<open>MAX_DELTA\<close>.
\<close>

definition specSameDirector :: "person option \<Rightarrow> person option \<Rightarrow> bool" where
  "specSameDirector prevDirector currDirector =
     (prevDirector \<noteq> None \<and> currDirector \<noteq> None \<and> prevDirector = currDirector)"

definition specCurveDelta :: "Point3d \<Rightarrow> Point3d \<Rightarrow> person option \<Rightarrow> person option \<Rightarrow> real" where
  "specCurveDelta anchorPrev anchorCurr prevDirector currDirector =
     (let nominalDelta = pt_y anchorCurr - pt_y anchorPrev;
          nominalDelta =
            (if specSameDirector prevDirector currDirector then nominalDelta / 3 else nominalDelta)
      in max (- MAX_DELTA) (min MAX_DELTA nominalDelta))"

subsection \<open>The hash configuration of the director table\<close>



subsection \<open>A small cast\<close>

text \<open>
  Four movies and four actors for the concrete computations below. Three actors star in
  \<open>M1\<close> and \<open>M2\<close>; the fourth stars in \<open>M2\<close>, \<open>M3\<close> and \<open>M4\<close>, of which
  the last two have one director. \<open>exampleLayout\<close> is the state after the curve
  builder has processed the four actors.
\<close>

definition M1 :: Movie where
  "M1 = \<lparr>movieId = 1, getReleaseDate = \<lparr>year = 1999, day_of_year = 365\<rparr>, getDirector = Some 10\<rparr>"
definition M2 :: Movie where
  "M2 = \<lparr>movieId = 2, getReleaseDate = \<lparr>year = 2001, day_of_year = 365\<rparr>, getDirector = Some 10\<rparr>"
definition M3 :: Movie where
  "M3 = \<lparr>movieId = 3, getReleaseDate = \<lparr>year = 2002, day_of_year = 365\<rparr>, getDirector = Some 11\<rparr>"
definition M4 :: Movie where
  "M4 = \<lparr>movieId = 4, getReleaseDate = \<lparr>year = 2003, day_of_year = 365\<rparr>, getDirector = Some 11\<rparr>"

definition exampleActors :: "Person list" where
  "exampleActors = [\<lparr>personId = 1, getMoviesStarredIn = [Some M2, Some M1]\<rparr>,
     \<lparr>personId = 2, getMoviesStarredIn = [Some M1, Some M2]\<rparr>,
     \<lparr>personId = 3, getMoviesStarredIn = [Some M1, Some M2]\<rparr>,
     \<lparr>personId = 4, getMoviesStarredIn = [Some M3, Some M2, Some M4]\<rparr>]"

definition exampleLayout :: layout where
  "exampleLayout = \<lparr>directorXPositions = [(Some 10, 0), (Some 11, 4)],
     curveStore =
       [newActorCurve 1 (BezierCurve (Point3d 0 (5 / 8) 0) (Point3d 0 (55 / 72) 0)
          (Point3d 0 (65 / 72) 0) (Point3d 0 (25 / 24) 0)),
        newActorCurve 2 (BezierCurve (Point3d 0 (5 / 8) 0) (Point3d 0 (55 / 72) 0)
          (Point3d 0 (65 / 72) 0) (Point3d 0 (25 / 24) 0)),
        newActorCurve 3 (BezierCurve (Point3d 0 (5 / 8) 0) (Point3d 0 (55 / 72) 0)
          (Point3d 0 (65 / 72) 0) (Point3d 0 (25 / 24) 0)),
        newActorCurve 4 (BezierCurve (Point3d 0 (25 / 24) 0) (Point3d 0 (5 / 4) 0)
          (Point3d 4 (25 / 24) 0) (Point3d 4 (5 / 4) 0)),
        newActorCurve 4 (BezierCurve (Point3d 4 (5 / 4) 0) (Point3d 4 (35 / 24) 0)
          (Point3d 4 (5 / 4) 0) (Point3d 4 (35 / 24) 0))],
     actorCurvesByActor = [(1, [0]), (2, [1]), (3, [2]), (4, [3, 4])],
     actorCurvesByMoviePair =
       [(MoviePair M1 M2, [0, 1, 2]), (MoviePair M2 M3, [3]), (MoviePair M2 M4, [4])]\<rparr>"





text \<open>
  Two movies of one director, released on the last day of the leap year 1988 and on the
  first day of 1989, with two actors who star in both; \<open>twinLayout\<close> is the state
  after the curve builder has processed the two actors.
\<close>

definition T1 :: Movie where
  "T1 = \<lparr>movieId = 6, getReleaseDate = \<lparr>year = 1988, day_of_year = 366\<rparr>, getDirector = Some 20\<rparr>"

definition T2 :: Movie where
  "T2 = \<lparr>movieId = 7, getReleaseDate = \<lparr>year = 1989, day_of_year = 1\<rparr>, getDirector = Some 20\<rparr>"

definition twinActors :: "Person list" where
  "twinActors = [\<lparr>personId = 7, getMoviesStarredIn = [Some T1, Some T2]\<rparr>,
     \<lparr>personId = 8, getMoviesStarredIn = [Some T1, Some T2]\<rparr>]"

definition twinLayout :: layout where
  "twinLayout = \<lparr>directorXPositions = [(Some 20, 0)],
     curveStore =
       [newActorCurve 7 (BezierCurve (Point3d 0 (- (973 / 584)) 0) (Point3d 0 (- (973 / 584)) 0)
          (Point3d 0 (- (973 / 584)) 0) (Point3d 0 (- (973 / 584)) 0)),
        newActorCurve 8 (BezierCurve (Point3d 0 (- (973 / 584)) 0) (Point3d 0 (- (973 / 584)) 0)
          (Point3d 0 (- (973 / 584)) 0) (Point3d 0 (- (973 / 584)) 0))],
     actorCurvesByActor = [(7, [0]), (8, [1])],
     actorCurvesByMoviePair = [(MoviePair T1 T2, [0, 1])]\<rparr>"

section \<open>Properties of the time axis\<close>

lemma getDateYPosition_linear: "getDateYPosition d = (dateAsYear d - 1997) * (5 / 24)"
  by (simp add: getDateYPosition_def UNITS_PER_YEAR_def LATEST_YEAR_def EARLIEST_YEAR_def
      Let_def field_simps)

lemma getDateYPosition_less_iff:
  "getDateYPosition d1 < getDateYPosition d2 \<longleftrightarrow> dateAsYear d1 < dateAsYear d2"
  by (simp add: getDateYPosition_linear)

lemma getDateYPosition_eq_iff:
  "getDateYPosition d1 = getDateYPosition d2 \<longleftrightarrow> dateAsYear d1 = dateAsYear d2"
  by (simp add: getDateYPosition_linear)

lemma valid_date_bounds: "valid_date d \<Longrightarrow> 1 \<le> day_of_year d \<and> day_of_year d \<le> 366"
  by (simp add: valid_date_def split: if_splits)

lemma date_less_cases:
  "date_less d1 d2 \<longleftrightarrow>
     year d1 < year d2 \<or> (year d1 = year d2 \<and> day_of_year d1 < day_of_year d2)"
  by (auto simp: date_less_def date_key_def)

lemma dateAsYear_diff:
  "365 * (dateAsYear d2 - dateAsYear d1) =
     365 * (real (year d2) - real (year d1)) + (real (day_of_year d2) - real (day_of_year d1))"
  by (simp add: dateAsYear_def algebra_simps)

text \<open>
  Claim C6 says that the time axis is strictly monotone on the calibration window. The
  fractional year divides by 365 in leap years too, so the last day of a leap year and
  the first day of the next year share one position.
\<close>

theorem getDateYPosition_not_strictly_monotone:
  "valid_date \<lparr>year = 1988, day_of_year = 366\<rparr> \<and>
   valid_date \<lparr>year = 1989, day_of_year = 1\<rparr> \<and>
   in_calibration_window \<lparr>year = 1988, day_of_year = 366\<rparr> \<and>
   in_calibration_window \<lparr>year = 1989, day_of_year = 1\<rparr> \<and>
   date_less \<lparr>year = 1988, day_of_year = 366\<rparr> \<lparr>year = 1989, day_of_year = 1\<rparr> \<and>
   \<not> getDateYPosition \<lparr>year = 1988, day_of_year = 366\<rparr>
       < getDateYPosition \<lparr>year = 1989, day_of_year = 1\<rparr>"
  by (simp add: valid_date_def is_leap_year_def in_calibration_window_def date_less_def
      date_key_def EARLIEST_YEAR_def LATEST_YEAR_def getDateYPosition_linear dateAsYear_def)

text \<open>
  Claim C6, as amended: for valid dates \<open>d1\<close> strictly earlier than \<open>d2\<close> (inside
  the calibration window or not) the position of \<open>d1\<close> is at most the position of
  \<open>d2\<close>, and the two positions are equal exactly when \<open>d1\<close> is day 366 of a year
  and \<open>d2\<close> is day 1 of the following year.
\<close>

theorem getDateYPosition_monotone:
  assumes "valid_date d1" and "valid_date d2" and "date_less d1 d2"
  shows "getDateYPosition d1 \<le> getDateYPosition d2 \<and>
         (getDateYPosition d1 = getDateYPosition d2 \<longleftrightarrow>
            year d2 = Suc (year d1) \<and> day_of_year d1 = 366 \<and> day_of_year d2 = 1)"
proof -
  from assms(1,2) valid_date_bounds
  have b: "1 \<le> day_of_year d1" "day_of_year d1 \<le> 366" "1 \<le> day_of_year d2" "day_of_year d2 \<le> 366"
    by blast+
  define D where "D = 365 * (dateAsYear d2 - dateAsYear d1)"
  have D: "D = 365 * (real (year d2) - real (year d1)) + (real (day_of_year d2) - real (day_of_year d1))"
    unfolding D_def by (rule dateAsYear_diff)
  have le: "getDateYPosition d1 \<le> getDateYPosition d2 \<longleftrightarrow> 0 \<le> D"
    by (simp add: D_def getDateYPosition_linear)
  have eq: "getDateYPosition d1 = getDateYPosition d2 \<longleftrightarrow> D = 0"
    by (auto simp add: D_def getDateYPosition_linear)
  from assms(3) consider
    (year) "year d1 < year d2" | (day) "year d1 = year d2" "day_of_year d1 < day_of_year d2"
    by (auto simp: date_less_cases)
  then show ?thesis
  proof cases
    case year
    then have "real (year d2) - real (year d1) \<ge> 1" by simp
    with b D have "0 \<le> D" by simp
    moreover have "D = 0 \<longleftrightarrow> year d2 = Suc (year d1) \<and> day_of_year d1 = 366 \<and> day_of_year d2 = 1"
    proof
      assume "D = 0"
      with D have "365 * int (year d2) + int (day_of_year d2) = 365 * int (year d1) + int (day_of_year d1)"
        by (simp add: algebra_simps)
      with year b show "year d2 = Suc (year d1) \<and> day_of_year d1 = 366 \<and> day_of_year d2 = 1"
        by linarith
    next
      assume "year d2 = Suc (year d1) \<and> day_of_year d1 = 366 \<and> day_of_year d2 = 1"
      with D show "D = 0" by simp
    qed
    ultimately show ?thesis using le eq by simp
  next
    case day
    with D have "0 < D" by simp
    with day le eq show ?thesis by auto
  qed
qed

theorem getDateYPosition_monotone_witness:
  "getDateYPosition \<lparr>year = 1988, day_of_year = 366\<rparr> = getDateYPosition \<lparr>year = 1989, day_of_year = 1\<rparr> \<and>
   getDateYPosition \<lparr>year = 1999, day_of_year = 90\<rparr> \<le> getDateYPosition \<lparr>year = 2003, day_of_year = 135\<rparr> \<and>
   getDateYPosition \<lparr>year = 1999, day_of_year = 90\<rparr> \<noteq> getDateYPosition \<lparr>year = 2003, day_of_year = 135\<rparr>"
  using getDateYPosition_monotone
      [of "\<lparr>year = 1988, day_of_year = 366\<rparr>" "\<lparr>year = 1989, day_of_year = 1\<rparr>"]
    getDateYPosition_monotone [of "\<lparr>year = 1999, day_of_year = 90\<rparr>" "\<lparr>year = 2003, day_of_year = 135\<rparr>"]
  by (simp add: valid_date_def is_leap_year_def date_less_def date_key_def)

text \<open>
  Claim C7 says that the midpoint date between 1985 and 2009 is mapped to 0. The day of
  the year counts from 1, so the first of January 1997 has the fractional year
  \<open>1997 + 1/365\<close> and is mapped to \<open>1/1752\<close>.
\<close>

theorem getDateYPosition_first_of_1997:
  "valid_date \<lparr>year = 1997, day_of_year = 1\<rparr> \<and>
   getDateYPosition \<lparr>year = 1997, day_of_year = 1\<rparr> = 1 / 1752 \<and>
   getDateYPosition \<lparr>year = 1997, day_of_year = 1\<rparr> \<noteq> 0"
  by (simp add: valid_date_def is_leap_year_def getDateYPosition_linear dateAsYear_def)

text \<open>
  Claim C7, as amended: a valid date is mapped to 0 exactly when its fractional year is
  the midpoint 1997 of the two calibration years, and the only such date is day 365
  of 1996.
\<close>

theorem getDateYPosition_centre:
  assumes "valid_date d"
  shows "(getDateYPosition d = 0 \<longleftrightarrow>
            dateAsYear d = (real EARLIEST_YEAR + real LATEST_YEAR) / 2) \<and>
         (getDateYPosition d = 0 \<longleftrightarrow> year d = 1996 \<and> day_of_year d = 365)"
proof -
  from assms valid_date_bounds
  have b: "1 \<le> day_of_year d" "day_of_year d \<le> 366" by blast+
  have m: "getDateYPosition d = 0 \<longleftrightarrow> dateAsYear d = 1997"
    by (simp add: getDateYPosition_linear)
  have "dateAsYear d = 1997 \<longleftrightarrow> 365 * int (year d) + int (day_of_year d) = 365 * 1997"
  proof -
    have "dateAsYear d = 1997 \<longleftrightarrow> 365 * real (year d) + real (day_of_year d) = 365 * 1997"
      by (simp add: dateAsYear_def field_simps)
    also have "\<dots> \<longleftrightarrow> real_of_int (365 * int (year d) + int (day_of_year d)) = real_of_int (365 * 1997)"
      by simp
    also have "\<dots> \<longleftrightarrow> 365 * int (year d) + int (day_of_year d) = 365 * 1997"
      by (simp only: of_int_eq_iff)
    finally show ?thesis .
  qed
  also have "\<dots> \<longleftrightarrow> year d = 1996 \<and> day_of_year d = 365"
  proof
    assume e: "365 * int (year d) + int (day_of_year d) = 365 * 1997"
    with b have "year d \<le> 1996" and "1996 \<le> year d" by linarith+
    with e show "year d = 1996 \<and> day_of_year d = 365" by linarith
  next
    assume "year d = 1996 \<and> day_of_year d = 365"
    then show "365 * int (year d) + int (day_of_year d) = 365 * 1997" by simp
  qed
  finally have "dateAsYear d = 1997 \<longleftrightarrow> year d = 1996 \<and> day_of_year d = 365" .
  with m show ?thesis
    by (simp add: EARLIEST_YEAR_def LATEST_YEAR_def)
qed

theorem getDateYPosition_centre_witness:
  "valid_date \<lparr>year = 1996, day_of_year = 365\<rparr> \<and>
   getDateYPosition \<lparr>year = 1996, day_of_year = 365\<rparr> = 0"
  using getDateYPosition_centre [of "\<lparr>year = 1996, day_of_year = 365\<rparr>"]
  by (simp add: valid_date_def is_leap_year_def)

section \<open>Properties of the director axis\<close>

lemma tableOf_snoc: "tableOf (seen @ [d]) = tableOf seen @ [(d, DISTANCE * real (length seen))]"
  by (simp add: tableOf_def)

lemma length_tableOf: "length (tableOf seen) = length seen"
  by (simp add: tableOf_def)

lemma map_of_tableOf_None: "d \<notin> set seen \<Longrightarrow> map_of (tableOf seen) d = None"
  by (simp add: tableOf_def map_of_zip_is_None)

lemma map_of_tableOf_Some:
  "d \<in> set seen \<Longrightarrow> map_of (tableOf seen) d = Some (DISTANCE * real (placeOf d seen))"
proof (induction seen rule: rev_induct)
  case Nil
  then show ?case by simp
next
  case (snoc a seen)
  show ?case
  proof (cases "d \<in> set seen")
    case True
    then have "placeOf d (seen @ [a]) = placeOf d seen"
      by (induction seen) auto
    with True snoc.IH show ?thesis
      by (simp add: tableOf_snoc)
  next
    case False
    with snoc.prems have da: "d = a" by simp
    have "placeOf a (seen @ [a]) = length seen" using False da
      by (induction seen) auto
    with False da show ?thesis
      by (simp add: tableOf_snoc map_of_tableOf_None map_add_def)
  qed
qed

lemma firstQueried_prefix: "\<exists>ys. firstQueried seen qs = seen @ ys"
  by (induction seen qs rule: firstQueried.induct) auto

lemma placeOf_append: "a \<in> set xs \<Longrightarrow> placeOf a (xs @ ys) = placeOf a xs"
  by (induction xs) auto

lemma placeOf_firstQueried:
  "d \<in> set seen \<Longrightarrow> placeOf d (firstQueried seen qs) = placeOf d seen"
  using firstQueried_prefix [of seen qs] by (auto simp: placeOf_append)

lemma distinct_firstQueried: "distinct seen \<Longrightarrow> distinct (firstQueried seen qs)"
  by (induction seen qs rule: firstQueried.induct) auto

lemma set_firstQueried: "set (firstQueried seen qs) = set seen \<union> set qs"
  by (induction seen qs rule: firstQueried.induct) auto

lemma placeOf_nth: "distinct xs \<Longrightarrow> i < length xs \<Longrightarrow> placeOf (xs ! i) xs = i"
proof (induction xs arbitrary: i)
  case Nil
  then show ?case by simp
next
  case (Cons a xs)
  then show ?case by (cases i) auto
qed

lemma queryDirectors_tableOf:
  "queryDirectors qs (tableOf seen) =
     (map (\<lambda>q. DISTANCE * real (placeOf q (firstQueried seen qs))) qs,
      tableOf (firstQueried seen qs))"
proof (induction qs arbitrary: seen)
  case Nil
  then show ?case by simp
next
  case (Cons q qs)
  show ?case
  proof (cases "q \<in> set seen")
    case True
    then show ?thesis
      by (simp add: getDirectorXPosition_def map_of_tableOf_Some Cons.IH placeOf_firstQueried)
  next
    case False
    have "placeOf q (firstQueried (seen @ [q]) qs) = length seen"
      using False by (simp add: placeOf_firstQueried) (induction seen, auto)
    with False show ?thesis
      by (simp add: getDirectorXPosition_def map_of_tableOf_None length_tableOf
          Cons.IH [of "seen @ [q]"] tableOf_snoc [symmetric])
  qed
qed

text \<open>
  Claim C5: in a run of queries against an empty table, every query for the \<open>k\<close>-th
  distinct director (in order of first query) returns \<open>DISTANCE * (k - 1)\<close>, with
  \<open>DISTANCE = 4\<close>: the first query assigns that position and every later query for
  the same director returns it again.
\<close>

theorem director_positions:
  assumes "queryDirectors qs [] = (xs, tbl)"
    and "1 \<le> k" and "k \<le> length (firstQueried [] qs)"
    and "j < length qs" and "qs ! j = firstQueried [] qs ! (k - 1)"
  shows "xs ! j = DISTANCE * real (k - 1) \<and> DISTANCE = 4"
proof -
  have t: "tableOf [] = []" by (simp add: tableOf_def)
  from assms(1) queryDirectors_tableOf [of qs "[]"]
  have xs: "xs = map (\<lambda>q. DISTANCE * real (placeOf q (firstQueried [] qs))) qs"
    by (simp add: t)
  have "distinct (firstQueried [] qs)" by (simp add: distinct_firstQueried)
  with assms(2,3) have "placeOf (firstQueried [] qs ! (k - 1)) (firstQueried [] qs) = k - 1"
    by (simp add: placeOf_nth)
  with xs assms(4,5) show ?thesis by (simp add: DISTANCE_def)
qed

theorem director_positions_witness:
  "queryDirectors [Some 7, None, Some 7, Some 2, None] [] =
     ([0, 4, 0, 8, 4], [(Some 7, 0), (None, 4), (Some 2, 8)]) \<and>
   firstQueried [] [Some 7, None, Some 7, Some 2, None] = [Some 7, None, Some 2] \<and>
   [0, 4, 0, 8, 4 :: real] ! 4 = DISTANCE * real (2 - 1)"
proof -
  have q: "queryDirectors [Some 7, None, Some 7, Some 2, None] [] =
     ([0, 4, 0, 8, 4], [(Some 7, 0), (None, 4), (Some 2, 8)])"
    by (simp add: getDirectorXPosition_def DISTANCE_def)
  have f: "firstQueried [] [Some 7, None, Some 7, Some 2, None] = [Some 7, None, Some (2::nat)]"
    by simp
  from director_positions [OF q, of 2 4] f
  have "[0, 4, 0, 8, 4 :: real] ! 4 = DISTANCE * real (2 - 1)"
    by simp
  with q f show ?thesis by blast
qed

section \<open>The loops of the overlap resolver\<close>

lemma length_divergeCurves [simp]:
  "length (divergeCurves dir k addrs store) = length store"
  by (induction addrs arbitrary: k store) auto

lemma divergeCurves_other:
  "a \<notin> set addrs \<Longrightarrow> divergeCurves dir k addrs store ! a = store ! a"
  by (induction addrs arbitrary: k store) auto

lemma divergeCurves_nth:
  assumes "distinct addrs" and "\<forall>a\<in>set addrs. a < length store"
    and "i < length addrs" and "k < 2 ^ 32"
  shows "divergeCurves dir k addrs store ! (addrs ! i) =
           divergeCurve dir ((k + i) mod 2 ^ 32) (store ! (addrs ! i))"
  using assms
proof (induction addrs arbitrary: k store i)
  case Nil
  then show ?case by simp
next
  case (Cons a rest)
  show ?case
  proof (cases i)
    case 0
    with Cons.prems show ?thesis
      by (simp add: divergeCurves_other)
  next
    case (Suc j)
    let ?store = "store[a := divergeCurve dir k (store ! a)]"
    from Cons.prems Suc have j: "j < length rest" and ne: "rest ! j \<noteq> a"
      by auto
    from Cons.prems have "distinct rest" "\<forall>b\<in>set rest. b < length ?store" "(k + 1) mod 2 ^ 32 < (2 ^ 32 :: nat)"
      by auto
    from Cons.IH [OF this(1) this(2) j this(3), of ]
    have "divergeCurves dir ((k + 1) mod 2 ^ 32) rest ?store ! (rest ! j) =
            divergeCurve dir (((k + 1) mod 2 ^ 32 + j) mod 2 ^ 32) (?store ! (rest ! j))" .
    moreover have "((k + 1) mod 2 ^ 32 + j) mod 2 ^ 32 = (k + Suc j) mod (2 ^ 32 :: nat)"
      by (simp add: mod_add_left_eq)
    ultimately show ?thesis using Suc ne by simp
  qed
qed

lemma getMoviePoint_known:
  "directorKnown (directorXPositions s) (getDirector m) \<Longrightarrow> snd (getMoviePoint m z s) = s"
  by (auto simp: getMoviePoint_def getDirectorXPosition_def directorKnown_def split: option.splits)

lemma getMoviePoint_fst_table:
  "directorXPositions s = directorXPositions s' \<Longrightarrow>
     fst (getMoviePoint m z s) = fst (getMoviePoint m z s')"
  by (simp add: getMoviePoint_def split: prod.splits)

lemma pairDirection_table:
  "directorXPositions s = directorXPositions s' \<Longrightarrow> pairDirection s mp = pairDirection s' mp"
  by (simp add: pairDirection_def getMoviePoint_fst_table [of s s'])

lemma divergePairs_step:
  assumes "directorKnown (directorXPositions s) (getDirector (getFirstMovie mp))"
    and "directorKnown (directorXPositions s) (getDirector (getSecondMovie mp))"
    and "\<not> length v \<le> 1"
  shows "divergePairs ((mp, v) # rest) s =
           divergePairs rest
             (s\<lparr>curveStore := divergeCurves (pairDirection s mp) 0 v (curveStore s)\<rparr>)"
proof -
  obtain m1 s1 where 1: "getMoviePoint (getFirstMovie mp) 0 s = (m1, s1)"
    by (cases "getMoviePoint (getFirstMovie mp) 0 s")
  with getMoviePoint_known [OF assms(1), of 0] have s1: "s1 = s" by simp
  obtain m2 s2 where 2: "getMoviePoint (getSecondMovie mp) 0 s = (m2, s2)"
    by (cases "getMoviePoint (getSecondMovie mp) 0 s")
  with getMoviePoint_known [OF assms(2), of 0] have s2: "s2 = s" by simp
  from 1 2 s1 s2 assms(3) show ?thesis
    by (simp add: pairDirection_def)
qed

lemma divergePairs_fields:
  "pairsKnown (directorXPositions s) es \<Longrightarrow>
     directorXPositions (divergePairs es s) = directorXPositions s \<and>
     actorCurvesByActor (divergePairs es s) = actorCurvesByActor s \<and>
     actorCurvesByMoviePair (divergePairs es s) = actorCurvesByMoviePair s \<and>
     length (curveStore (divergePairs es s)) = length (curveStore s)"
proof (induction es arbitrary: s)
  case Nil
  then show ?case by simp
next
  case (Cons e es)
  obtain mp v where e: "e = (mp, v)" by (cases e)
  show ?case
  proof (cases "length v \<le> 1")
    case True
    with Cons e show ?thesis by (simp add: pairsKnown_def)
  next
    case False
    let ?s = "s\<lparr>curveStore := divergeCurves (pairDirection s mp) 0 v (curveStore s)\<rparr>"
    from Cons.prems e have k: "directorKnown (directorXPositions s) (getDirector (getFirstMovie mp))"
      "directorKnown (directorXPositions s) (getDirector (getSecondMovie mp))"
      "pairsKnown (directorXPositions ?s) es"
      by (simp_all add: pairsKnown_def)
    from Cons.IH [OF k(3)] divergePairs_step [OF k(1) k(2) False] e
    show ?thesis by simp
  qed
qed

lemma divergePairs_other:
  "pairsKnown (directorXPositions s) es \<Longrightarrow>
   a \<notin> set (concat (map snd (filter (\<lambda>e. 2 \<le> length (snd e)) es))) \<Longrightarrow>
     curveStore (divergePairs es s) ! a = curveStore s ! a"
proof (induction es arbitrary: s)
  case Nil
  then show ?case by simp
next
  case (Cons e es)
  obtain mp v where e: "e = (mp, v)" by (cases e)
  show ?case
  proof (cases "length v \<le> 1")
    case True
    with Cons e show ?thesis by (simp add: pairsKnown_def)
  next
    case False
    let ?s = "s\<lparr>curveStore := divergeCurves (pairDirection s mp) 0 v (curveStore s)\<rparr>"
    from Cons.prems e have k: "directorKnown (directorXPositions s) (getDirector (getFirstMovie mp))"
      "directorKnown (directorXPositions s) (getDirector (getSecondMovie mp))"
      "pairsKnown (directorXPositions ?s) es"
      by (simp_all add: pairsKnown_def)
    from Cons.prems(2) e False have a: "a \<notin> set v"
      "a \<notin> set (concat (map snd (filter (\<lambda>e. 2 \<le> length (snd e)) es)))"
      by auto
    from Cons.IH [OF k(3) a(2)] divergePairs_step [OF k(1) k(2) False] e a(1)
    show ?thesis by (simp add: divergeCurves_other)
  qed
qed

lemma divergePairs_nth:
  assumes "pairsKnown (directorXPositions s) es"
    and "distinct (concat (map snd es))"
    and "\<forall>a\<in>set (concat (map snd es)). a < length (curveStore s)"
    and "(mp, addrs) \<in> set es" and "2 \<le> length addrs" and "i < length addrs"
  shows "curveStore (divergePairs es s) ! (addrs ! i) =
           divergeCurve (pairDirection s mp) (i mod 2 ^ 32) (curveStore s ! (addrs ! i))"
  using assms(1-4)
proof (induction es arbitrary: s)
  case Nil
  then show ?case by simp
next
  case (Cons e es)
  obtain mp' v where e: "e = (mp', v)" by (cases e)
  from assms(6) have ai: "addrs ! i \<in> set addrs" by simp
  from Cons.prems(1) e have k: "directorKnown (directorXPositions s) (getDirector (getFirstMovie mp'))"
      "directorKnown (directorXPositions s) (getDirector (getSecondMovie mp'))"
      "pairsKnown (directorXPositions s) es"
    by (simp_all add: pairsKnown_def)
  show ?case
  proof (cases "(mp, addrs) = e")
    case True
    with e have [simp]: "mp' = mp" "v = addrs" by simp_all
    let ?s = "s\<lparr>curveStore := divergeCurves (pairDirection s mp) 0 addrs (curveStore s)\<rparr>"
    from assms(5) have big: "\<not> length addrs \<le> 1" by simp
    from k(3) have k': "pairsKnown (directorXPositions ?s) es" by simp
    from Cons.prems(2) e ai have "addrs ! i \<notin> set (concat (map snd es))"
      by auto
    then have "addrs ! i \<notin> set (concat (map snd (filter (\<lambda>e. 2 \<le> length (snd e)) es)))"
      by auto
    from divergePairs_other [OF k' this] divergePairs_step [OF k(1) k(2), of addrs es] e big
    have "curveStore (divergePairs (e # es) s) ! (addrs ! i) =
            divergeCurves (pairDirection s mp) 0 addrs (curveStore s) ! (addrs ! i)"
      by simp
    also have "\<dots> = divergeCurve (pairDirection s mp) ((0 + i) mod 2 ^ 32) (curveStore s ! (addrs ! i))"
    proof (rule divergeCurves_nth)
      from Cons.prems(2) e show "distinct addrs" by simp
      from Cons.prems(3) e show "\<forall>a\<in>set addrs. a < length (curveStore s)" by simp
      show "i < length addrs" by (rule assms(6))
      show "(0::nat) < 2 ^ 32" by simp
    qed
    finally show ?thesis by simp
  next
    case False
    with Cons.prems(4) have mem: "(mp, addrs) \<in> set es" by simp
    then have sub: "set addrs \<subseteq> set (concat (map snd es))" by force
    show ?thesis
    proof (cases "length v \<le> 1")
      case True
      from Cons.prems(2,3) e have "distinct (concat (map snd es))"
        "\<forall>a\<in>set (concat (map snd es)). a < length (curveStore s)" by simp_all
      from Cons.IH [OF k(3) this mem] True e show ?thesis by simp
    next
      case big: False
      let ?s = "s\<lparr>curveStore := divergeCurves (pairDirection s mp') 0 v (curveStore s)\<rparr>"
      from k(3) have k': "pairsKnown (directorXPositions ?s) es" by simp
      from Cons.prems(2,3) e have "distinct (concat (map snd es))"
        "\<forall>a\<in>set (concat (map snd es)). a < length (curveStore ?s)" by simp_all
      from Cons.IH [OF k' this mem]
      have "curveStore (divergePairs es ?s) ! (addrs ! i) =
              divergeCurve (pairDirection ?s mp) (i mod 2 ^ 32) (curveStore ?s ! (addrs ! i))" .
      moreover have "pairDirection ?s mp = pairDirection s mp"
        by (rule pairDirection_table) simp
      moreover from Cons.prems(2) e sub ai have "addrs ! i \<notin> set v" by auto
      then have "curveStore ?s ! (addrs ! i) = curveStore s ! (addrs ! i)"
        by (simp add: divergeCurves_other)
      ultimately show ?thesis
        using divergePairs_step [OF k(1) k(2) big, of es] e by simp
    qed
  qed
qed

section \<open>Invariants of the curve builder\<close>

lemma mset_pushBack:
  "mset (concat (map snd (pushBack eq k a es))) = mset (concat (map snd es)) + {#a#}"
  by (induction es) auto

lemma keys_pushBack:
  "fst ` set (pushBack eq k a es) \<subseteq> insert k (fst ` set es)"
proof (induction es)
  case Nil
  then show ?case by simp
next
  case (Cons e es)
  obtain k' v where e: "e = (k', v)" by (cases e)
  show ?case
  proof (cases "eq k' k")
    case True
    with e show ?thesis by auto
  next
    case False
    with e Cons.IH show ?thesis by auto
  qed
qed

lemma findEntry_pushBack_same:
  "findEntry (=) k (pushBack (=) k a es) =
     Some ((case findEntry (=) k es of None \<Rightarrow> [] | Some v \<Rightarrow> v) @ [a])"
  by (induction es) auto

lemma findEntry_pushBack_other:
  "k' \<noteq> k \<Longrightarrow> findEntry (=) k' (pushBack (=) k a es) = findEntry (=) k' es"
  by (induction es) auto

lemma walkStep_eq:
  "walkStep actor lastMoviePtr lastAnchor moviePtr s =
     (let anchor = fst (getMoviePoint moviePtr 0 s);
          tbl = directorXPositions (snd (getMoviePoint moviePtr 0 s));
          n = length (curveStore s);
          c = newActorCurve actor (segmentCurve lastAnchor anchor
                (curveDelta lastAnchor anchor (getDirector lastMoviePtr) (getDirector moviePtr)))
      in (anchor,
          \<lparr>directorXPositions = tbl,
           curveStore = curveStore s @ [c],
           actorCurvesByActor = pushBack (=) actor n (actorCurvesByActor s),
           actorCurvesByMoviePair =
             pushBack moviePairEq (MoviePair lastMoviePtr moviePtr) n (actorCurvesByMoviePair s)\<rparr>))"
  by (simp add: walkStep_def getMoviePoint_def allocActorCurve_def addActorCurve_def Let_def
      newActorCurve_def split: prod.splits)

lemma upt_shift: "[n..<n + Suc k] = n # [Suc n..<Suc n + k]"
  using upt_conv_Cons [of n "n + Suc k"] by simp

lemma getDirectorXPosition_known:
  "directorKnown (snd (getDirectorXPosition d tbl)) d"
  by (auto simp: getDirectorXPosition_def directorKnown_def Let_def map_add_def
      split: option.splits)

lemma getDirectorXPosition_mono:
  "directorKnown tbl d' \<Longrightarrow> directorKnown (snd (getDirectorXPosition d tbl)) d'"
  by (auto simp: getDirectorXPosition_def directorKnown_def Let_def map_add_def
      split: option.splits)

lemma getMoviePoint_snd:
  "snd (getMoviePoint m z s) =
     s\<lparr>directorXPositions := snd (getDirectorXPosition (getDirector m) (directorXPositions s))\<rparr>"
  by (simp add: getMoviePoint_def split: prod.splits)

lemma pairsKnown_mono:
  "pairsKnown tbl es \<Longrightarrow> (\<And>d. directorKnown tbl d \<Longrightarrow> directorKnown tbl' d) \<Longrightarrow>
     pairsKnown tbl' es"
  by (simp add: pairsKnown_def)

lemma pairsKnown_pushBack:
  assumes "pairsKnown tbl es" and "directorKnown tbl (getDirector (getFirstMovie k))"
    and "directorKnown tbl (getDirector (getSecondMovie k))"
  shows "pairsKnown tbl (pushBack eq k a es)"
  unfolding pairsKnown_def
proof
  fix e assume "e \<in> set (pushBack eq k a es)"
  with keys_pushBack [of eq k a es] have "fst e = k \<or> fst e \<in> fst ` set es" by auto
  with assms show "directorKnown tbl (getDirector (getFirstMovie (fst e))) \<and>
         directorKnown tbl (getDirector (getSecondMovie (fst e)))"
    by (auto simp: pairsKnown_def)
qed

lemma walkStep_fields:
  fixes s :: layout
  defines "n \<equiv> length (curveStore s)"
  assumes w: "walkStep actor l la m s = (anchor, s')"
  shows "directorXPositions s' = snd (getDirectorXPosition (getDirector m) (directorXPositions s))"
    and "\<exists>c. curveStore s' = curveStore s @ [c] \<and> getActor c = actor \<and> getSecondCurve c = None"
    and "actorCurvesByActor s' = pushBack (=) actor n (actorCurvesByActor s)"
    and "actorCurvesByMoviePair s' = pushBack moviePairEq (MoviePair l m) n (actorCurvesByMoviePair s)"
    and "anchor = fst (getMoviePoint m 0 s)"
  using w unfolding n_def
  by (auto simp: walkStep_eq Let_def getMoviePoint_snd newActorCurve_def)

lemma walkStep_wellFormed:
  assumes w: "walkStep actor l la m s = (anchor, s')"
    and wf: "wellFormed s" and k: "directorKnown (directorXPositions s) (getDirector l)"
  shows "wellFormed s'"
proof -
  let ?n = "length (curveStore s)"
  note f = walkStep_fields [OF w]
  from f(2) obtain c where c: "curveStore s' = curveStore s @ [c]" "getSecondCurve c = None"
    by blast
  have m: "mset (pairAddresses s') = mset (pairAddresses s) + {#?n#}"
    by (simp add: pairAddresses_def f(4) mset_pushBack)
  from wf have d: "distinct (pairAddresses s)" and st: "set (pairAddresses s) = {0..<?n}"
    by (simp_all add: wellFormed_def)
  from st have fresh: "?n \<notin> set (pairAddresses s)" by simp
  have "distinct (pairAddresses s @ [?n])" using d fresh by simp
  moreover have "mset (pairAddresses s') = mset (pairAddresses s @ [?n])" using m by simp
  ultimately have 1: "distinct (pairAddresses s')"
    by (metis mset_eq_imp_distinct_iff)
  from m have "set (pairAddresses s') = insert ?n (set (pairAddresses s))"
    by (metis mset_eq_setD set_mset_mset set_mset_add_mset_insert add_mset_add_single)
  with st c have 2: "set (pairAddresses s') = {0..<length (curveStore s')}"
    by (auto simp: atLeast0_lessThan_Suc)
  have 3: "pairsKnown (directorXPositions s') (actorCurvesByMoviePair s')"
    unfolding f(1) f(4)
  proof (rule pairsKnown_pushBack)
    from wf have "pairsKnown (directorXPositions s) (actorCurvesByMoviePair s)"
      by (simp add: wellFormed_def)
    then show "pairsKnown (snd (getDirectorXPosition (getDirector m) (directorXPositions s)))
        (actorCurvesByMoviePair s)"
      by (rule pairsKnown_mono) (rule getDirectorXPosition_mono)
    from k show "directorKnown (snd (getDirectorXPosition (getDirector m) (directorXPositions s)))
        (getDirector (getFirstMovie (MoviePair l m)))"
      by (simp add: getDirectorXPosition_mono)
    show "directorKnown (snd (getDirectorXPosition (getDirector m) (directorXPositions s)))
        (getDirector (getSecondMovie (MoviePair l m)))"
      by (simp add: getDirectorXPosition_known)
  qed
  from wf c have 4: "\<forall>c\<in>set (curveStore s'). getSecondCurve c = None"
    by (auto simp: wellFormed_def)
  from 1 2 3 4 show ?thesis by (simp add: wellFormed_def)
qed

lemma walkMovies_total:
  "None \<notin> set ws \<Longrightarrow> \<exists>s'. walkMovies actor l la ws s = Inr s'"
proof (induction ws arbitrary: la s)
  case Nil
  then show ?case by simp
next
  case (Cons w ws)
  then obtain m where "w = Some m" by (cases w) auto
  with Cons show ?case by (simp split: prod.splits)
qed

lemma walkMovies_wellFormed:
  "walkMovies actor l la ws s = Inr s' \<Longrightarrow> wellFormed s \<Longrightarrow>
   directorKnown (directorXPositions s) (getDirector l) \<Longrightarrow> wellFormed s'"
proof (induction ws arbitrary: la s)
  case Nil
  then show ?case by simp
next
  case (Cons w ws)
  from Cons.prems(1) obtain m where w: "w = Some m" by (cases w) auto
  obtain anchor s3 where st: "walkStep actor l la m s = (anchor, s3)"
    by (cases "walkStep actor l la m s")
  from Cons.prems(1) w st have r: "walkMovies actor l anchor ws s3 = Inr s'" by simp
  from walkStep_wellFormed [OF st Cons.prems(2,3)] have wf: "wellFormed s3" .
  from walkStep_fields(1) [OF st] Cons.prems(3)
  have "directorKnown (directorXPositions s3) (getDirector l)"
    by (simp add: getDirectorXPosition_mono)
  from Cons.IH [OF r wf this] show ?case .
qed

lemma walkMovies_store:
  "walkMovies actor l la ws s = Inr s' \<Longrightarrow>
     \<exists>new. curveStore s' = curveStore s @ new \<and> length new = length ws \<and>
       (\<forall>c\<in>set new. getActor c = actor \<and> getSecondCurve c = None)"
proof (induction ws arbitrary: la s)
  case Nil
  then show ?case by simp
next
  case (Cons w ws)
  from Cons.prems(1) obtain m where w: "w = Some m" by (cases w) auto
  obtain anchor s3 where st: "walkStep actor l la m s = (anchor, s3)"
    by (cases "walkStep actor l la m s")
  from Cons.prems(1) w st have r: "walkMovies actor l anchor ws s3 = Inr s'" by simp
  from walkStep_fields(2) [OF st] obtain c where
    c: "curveStore s3 = curveStore s @ [c]" "getActor c = actor" "getSecondCurve c = None"
    by blast
  from Cons.IH [OF r] obtain new where
    n: "curveStore s' = curveStore s3 @ new" "length new = length ws"
      "\<forall>c\<in>set new. getActor c = actor \<and> getSecondCurve c = None"
    by blast
  from c n have "curveStore s' = curveStore s @ (c # new) \<and> length (c # new) = length (w # ws) \<and>
       (\<forall>c\<in>set (c # new). getActor c = actor \<and> getSecondCurve c = None)"
    by simp
  then show ?case by blast
qed

lemma walkMovies_length:
  "walkMovies actor l la ws s = Inr s' \<Longrightarrow>
     length (curveStore s') = length (curveStore s) + length ws"
  using walkMovies_store [of actor l la ws s s'] by auto

lemma actorAddresses_pushBack:
  "actorAddresses actor (s\<lparr>actorCurvesByActor := pushBack (=) actor n (actorCurvesByActor s)\<rparr>) =
     actorAddresses actor s @ [n]"
  by (simp add: actorAddresses_def findEntry_pushBack_same)

lemma walkMovies_actorAddresses:
  "walkMovies actor l la ws s = Inr s' \<Longrightarrow>
     actorAddresses actor s' =
       actorAddresses actor s @ [length (curveStore s)..<length (curveStore s) + length ws]"
proof (induction ws arbitrary: la s)
  case Nil
  then show ?case by simp
next
  case (Cons w ws)
  from Cons.prems(1) obtain m where w: "w = Some m" by (cases w) auto
  obtain anchor s3 where st: "walkStep actor l la m s = (anchor, s3)"
    by (cases "walkStep actor l la m s")
  from Cons.prems(1) w st have r: "walkMovies actor l anchor ws s3 = Inr s'" by simp
  let ?n = "length (curveStore s)"
  from walkStep_fields(2) [OF st] have len: "length (curveStore s3) = Suc ?n" by auto
  from walkStep_fields(3) [OF st]
  have a: "actorAddresses actor s3 = actorAddresses actor s @ [?n]"
    by (simp add: actorAddresses_def findEntry_pushBack_same)
  from Cons.IH [OF r] a len
  have "actorAddresses actor s' = actorAddresses actor s @ ?n # [Suc ?n..<Suc ?n + length ws]"
    by simp
  also have "?n # [Suc ?n..<Suc ?n + length ws] = [?n..<?n + length (w # ws)]"
    using upt_shift [of ?n "length ws"] by simp
  finally show ?case .
qed

lemma walkMovies_pairAddresses:
  "walkMovies actor l la ws s = Inr s' \<Longrightarrow>
     mset (pairAddresses s') =
       mset (pairAddresses s) + mset [length (curveStore s)..<length (curveStore s) + length ws]"
proof (induction ws arbitrary: la s)
  case Nil
  then show ?case by simp
next
  case (Cons w ws)
  from Cons.prems(1) obtain m where w: "w = Some m" by (cases w) auto
  obtain anchor s3 where st: "walkStep actor l la m s = (anchor, s3)"
    by (cases "walkStep actor l la m s")
  from Cons.prems(1) w st have r: "walkMovies actor l anchor ws s3 = Inr s'" by simp
  let ?n = "length (curveStore s)"
  from walkStep_fields(2) [OF st] have len: "length (curveStore s3) = Suc ?n" by auto
  from walkStep_fields(4) [OF st]
  have a: "mset (pairAddresses s3) = mset (pairAddresses s) + {#?n#}"
    by (simp add: pairAddresses_def mset_pushBack)
  have "[?n..<?n + length (w # ws)] = ?n # [Suc ?n..<Suc ?n + length ws]"
    using upt_shift [of ?n "length ws"] by simp
  with Cons.IH [OF r] a len show ?case by simp
qed

lemma sortByReleaseDate_Inr:
  "sortByReleaseDate ws = Inr srt \<Longrightarrow> mset srt = mset ws"
  by (auto simp: sortByReleaseDate_def split: if_splits)

lemma sortByReleaseDate_total:
  "None \<notin> set ws \<Longrightarrow> \<exists>srt. sortByReleaseDate ws = Inr srt"
  by (simp add: sortByReleaseDate_def)

lemma initActorCurves_empty:
  "getMoviesStarredIn actor = [] \<Longrightarrow> initActorCurves actor s = Inr s"
  by (simp add: initActorCurves_def)

lemma initActorCurves_walk:
  assumes "initActorCurves actor s = Inr s'" and "getMoviesStarredIn actor \<noteq> []"
  shows "\<exists>m rest. mset (Some m # rest) = mset (getMoviesStarredIn actor) \<and>
           walkMovies (personId actor) m (fst (getMoviePoint m 0 s)) rest
             (snd (getMoviePoint m 0 s)) = Inr s'"
proof -
  from assms obtain srt where
    so: "sortByReleaseDate (getMoviesStarredIn actor) = Inr srt"
    by (cases "sortByReleaseDate (getMoviesStarredIn actor)")
      (auto simp: initActorCurves_def)
  then have ms: "mset srt = mset (getMoviesStarredIn actor)"
    by (rule sortByReleaseDate_Inr)
  with assms(2) have "srt \<noteq> []" by auto
  then obtain w rest where srt: "srt = w # rest" by (cases srt) auto
  from assms so srt obtain m where w: "w = Some m"
    by (cases w) (auto simp: initActorCurves_def)
  from assms so srt w
  have "walkMovies (personId actor) m (fst (getMoviePoint m 0 s)) rest
             (snd (getMoviePoint m 0 s)) = Inr s'"
    by (simp add: initActorCurves_def split: prod.splits)
  with ms srt w show ?thesis by blast
qed

lemma initActorCurves_total:
  assumes "None \<notin> set (getMoviesStarredIn actor)"
  shows "\<exists>s'. initActorCurves actor s = Inr s'"
proof (cases "getMoviesStarredIn actor = []")
  case True
  then show ?thesis by (simp add: initActorCurves_empty)
next
  case False
  from sortByReleaseDate_total [OF assms] obtain srt where
    so: "sortByReleaseDate (getMoviesStarredIn actor) = Inr srt" by blast
  then have ms: "mset srt = mset (getMoviesStarredIn actor)"
    by (rule sortByReleaseDate_Inr)
  then have st: "set srt = set (getMoviesStarredIn actor)" by (rule mset_eq_setD)
  from ms False have "srt \<noteq> []" by auto
  then obtain w rest where srt: "srt = w # rest" by (cases srt) auto
  with st assms obtain m where w: "w = Some m" by (cases w) auto
  from st srt assms have "None \<notin> set rest" by auto
  from walkMovies_total [OF this] so srt w False show ?thesis
    by (simp add: initActorCurves_def split: prod.splits)
qed

lemma wellFormed_getMoviePoint:
  assumes "wellFormed s"
  shows "wellFormed (snd (getMoviePoint m z s))"
proof -
  from assms have "pairsKnown (directorXPositions s) (actorCurvesByMoviePair s)"
    by (simp add: wellFormed_def)
  then have "pairsKnown (snd (getDirectorXPosition (getDirector m) (directorXPositions s)))
      (actorCurvesByMoviePair s)"
    by (rule pairsKnown_mono) (rule getDirectorXPosition_mono)
  with assms show ?thesis
    by (simp add: getMoviePoint_snd wellFormed_def pairAddresses_def)
qed

lemma initActorCurves_wellFormed:
  assumes "initActorCurves actor s = Inr s'" and "wellFormed s"
  shows "wellFormed s'"
proof (cases "getMoviesStarredIn actor = []")
  case True
  with assms show ?thesis by (simp add: initActorCurves_empty)
next
  case False
  from initActorCurves_walk [OF assms(1) False] obtain m rest where
    w: "walkMovies (personId actor) m (fst (getMoviePoint m 0 s)) rest
             (snd (getMoviePoint m 0 s)) = Inr s'" by blast
  show ?thesis
  proof (rule walkMovies_wellFormed [OF w])
    show "wellFormed (snd (getMoviePoint m 0 s))"
      by (rule wellFormed_getMoviePoint) (rule assms(2))
    show "directorKnown (directorXPositions (snd (getMoviePoint m 0 s))) (getDirector m)"
      by (simp add: getMoviePoint_snd getDirectorXPosition_known)
  qed
qed

lemma initActors_wellFormed:
  "initActors actors s = Inr s' \<Longrightarrow> wellFormed s \<Longrightarrow> wellFormed s'"
proof (induction actors arbitrary: s)
  case Nil
  then show ?case by simp
next
  case (Cons a actors)
  from Cons.prems(1) obtain s1 where 1: "initActorCurves a s = Inr s1"
    and 2: "initActors actors s1 = Inr s'"
    by (cases "initActorCurves a s") auto
  from Cons.IH [OF 2 initActorCurves_wellFormed [OF 1 Cons.prems(2)]] show ?case .
qed

lemma initActors_total:
  "\<forall>a\<in>set actors. None \<notin> set (getMoviesStarredIn a) \<Longrightarrow> \<exists>s'. initActors actors s = Inr s'"
proof (induction actors arbitrary: s)
  case Nil
  then show ?case by simp
next
  case (Cons a actors)
  from Cons.prems have "None \<notin> set (getMoviesStarredIn a)" by simp
  from initActorCurves_total [OF this] obtain s1 where 1: "initActorCurves a s = Inr s1"
    by blast
  from Cons.prems have "\<forall>a\<in>set actors. None \<notin> set (getMoviesStarredIn a)" by simp
  from Cons.IH [OF this, of s1] 1 show ?case by simp
qed

lemma wellFormed_emptyLayout: "wellFormed emptyLayout"
  by (simp add: wellFormed_def emptyLayout_def pairAddresses_def pairsKnown_def)

lemma reachable_wellFormed: "initActors actors emptyLayout = Inr s \<Longrightarrow> wellFormed s"
  using initActors_wellFormed [of actors emptyLayout s] by (simp add: wellFormed_emptyLayout)

lemma groups_disjoint:
  "distinct (concat (map snd es)) \<Longrightarrow> e1 \<in> set es \<Longrightarrow> e2 \<in> set es \<Longrightarrow> e1 \<noteq> e2 \<Longrightarrow>
     a \<in> set (snd e1) \<Longrightarrow> a \<notin> set (snd e2)"
proof (induction es)
  case Nil
  then show ?case by simp
next
  case (Cons e es)
  from Cons.prems(1) have d: "distinct (concat (map snd es))"
    and dis: "set (snd e) \<inter> set (concat (map snd es)) = {}" by simp_all
  consider (both) "e1 \<in> set es" "e2 \<in> set es" | (first) "e1 = e" "e2 \<in> set es"
    | (second) "e2 = e" "e1 \<in> set es"
    using Cons.prems(2,3,4) by auto
  then show ?case
  proof cases
    case both
    from Cons.IH [OF d both Cons.prems(4,5)] show ?thesis .
  next
    case first
    with dis Cons.prems(5) show ?thesis by auto
  next
    case second
    with dis Cons.prems(5) show ?thesis by auto
  qed
qed

lemma resolved_curve:
  assumes "wellFormed s" and "(mp, addrs) \<in> set (actorCurvesByMoviePair s)"
    and "2 \<le> length addrs" and "i < length addrs"
  shows "curveStore (divergeOverlappingCurves s) ! (addrs ! i) =
           divergeCurve (pairDirection s mp) (i mod 2 ^ 32) (curveStore s ! (addrs ! i))"
  unfolding divergeOverlappingCurves_def
proof (rule divergePairs_nth [OF _ _ _ assms(2) assms(3) assms(4)])
  from assms(1) show "pairsKnown (directorXPositions s) (actorCurvesByMoviePair s)"
    by (simp add: wellFormed_def)
  from assms(1) show "distinct (concat (map snd (actorCurvesByMoviePair s)))"
    by (simp add: wellFormed_def pairAddresses_def)
  from assms(1) show "\<forall>a\<in>set (concat (map snd (actorCurvesByMoviePair s))). a < length (curveStore s)"
    by (simp add: wellFormed_def pairAddresses_def)
qed

lemma untouched_curve:
  assumes "wellFormed s" and "(mp, addrs) \<in> set (actorCurvesByMoviePair s)"
    and "length addrs \<le> 1" and "a \<in> set addrs"
  shows "curveStore (divergeOverlappingCurves s) ! a = curveStore s ! a"
  unfolding divergeOverlappingCurves_def
proof (rule divergePairs_other)
  from assms(1) show "pairsKnown (directorXPositions s) (actorCurvesByMoviePair s)"
    by (simp add: wellFormed_def)
  from assms(1) have d: "distinct (concat (map snd (actorCurvesByMoviePair s)))"
    by (simp add: wellFormed_def pairAddresses_def)
  show "a \<notin> set (concat (map snd (filter (\<lambda>e. 2 \<le> length (snd e)) (actorCurvesByMoviePair s))))"
  proof
    assume "a \<in> set (concat (map snd (filter (\<lambda>e. 2 \<le> length (snd e)) (actorCurvesByMoviePair s))))"
    then obtain e where e: "e \<in> set (actorCurvesByMoviePair s)" "2 \<le> length (snd e)" "a \<in> set (snd e)"
      by auto
    with assms(3) have ne: "e \<noteq> (mp, addrs)" by auto
    from groups_disjoint [OF d e(1) assms(2) ne e(3)] assms(4) show False
      by simp
  qed
qed

section \<open>The curve builder on the example\<close>

lemma getDateYPosition_example:
  "getDateYPosition \<lparr>year = 1999, day_of_year = 365\<rparr> = 5 / 8"
  "getDateYPosition \<lparr>year = 2001, day_of_year = 365\<rparr> = 25 / 24"
  "getDateYPosition \<lparr>year = 2002, day_of_year = 365\<rparr> = 5 / 4"
  "getDateYPosition \<lparr>year = 2003, day_of_year = 365\<rparr> = 35 / 24"
  by (simp_all add: getDateYPosition_def UNITS_PER_YEAR_def LATEST_YEAR_def EARLIEST_YEAR_def
      Let_def dateAsYear_def)

lemma initActors_example: "initActors exampleActors emptyLayout = Inr exampleLayout"
  by (simp add: exampleActors_def emptyLayout_def exampleLayout_def initActorCurves_def
      sortByReleaseDate_def M1_def M2_def M3_def M4_def date_key_def walkStep_eq
      getMoviePoint_def getDirectorXPosition_def DISTANCE_def getDateYPosition_example
      curveDelta_def segmentCurve_def MAX_DELTA_def sign_def moviePairEq_def Let_def)

section \<open>Vectors, offsets and the examples\<close>

lemma vector_length_scale:
  "vector_length (vector_scale k v) = \<bar>k\<bar> * vector_length v"
proof -
  have "(k * vec_x v) * (k * vec_x v) + (k * vec_y v) * (k * vec_y v) + (k * vec_z v) * (k * vec_z v)
      = (k * k) * (vec_x v * vec_x v + vec_y v * vec_y v + vec_z v * vec_z v)"
    by (simp add: algebra_simps)
  then show ?thesis
    by (simp add: vector_length_def vector_scale_def real_sqrt_mult)
qed

lemma vector_length_zero_iff:
  "vector_length v = 0 \<longleftrightarrow> v = Vector3d 0 0 0"
proof -
  have "vec_x v * vec_x v + vec_y v * vec_y v + vec_z v * vec_z v = 0 \<longleftrightarrow>
          vec_x v = 0 \<and> vec_y v = 0 \<and> vec_z v = 0"
    by (simp add: add_nonneg_eq_0_iff)
  then show ?thesis
    by (cases v) (simp add: vector_length_def)
qed

lemma vector_length_normalize:
  assumes "v \<noteq> Vector3d 0 0 0"
  shows "vector_length (normalize_vec v) = 1"
proof -
  from assms have "vector_length v \<noteq> 0" by (simp add: vector_length_zero_iff)
  moreover have "0 \<le> vector_length v" by (simp add: vector_length_def)
  ultimately show ?thesis
    by (simp add: normalize_vec_def vector_length_scale)
qed

lemma offsetDirectionOf_unit:
  assumes "m1 \<noteq> m2"
  shows "vector_length (offsetDirectionOf m1 m2) = 1"
proof -
  from assms have "Vector3d (- vec_y (point_minus m2 m1)) (vec_x (point_minus m2 m1))
      (vec_z (point_minus m2 m1)) \<noteq> Vector3d 0 0 0"
    by (cases m1; cases m2) (auto simp: point_minus_def)
  then show ?thesis
    by (simp add: offsetDirectionOf_def Let_def vector_length_normalize)
qed

lemma offsetAmount_formula:
  assumes "i + 1 < 2 ^ 32"
  shows "offsetAmount i =
           (if i = 0 then 0 else (if even i then - 1 else 1) * (real ((i + 1) div 2) * 0.05))"
proof -
  from assms have "(i + 1) mod 2 ^ 32 = i + 1" by simp
  then show ?thesis
    by (simp add: offsetAmount_def offsetIncrement_def even_iff_mod_2_eq_zero)
qed

lemma splitAndShift_parts:
  "getActor (splitAndShift ov c) = getActor c"
  "getFirstCurve (splitAndShift ov c) =
     BezierCurve (getP0 (fst (subdivideAt (getFirstCurve c) 0.5)))
       (getP1 (fst (subdivideAt (getFirstCurve c) 0.5)))
       (point_plus (getP2 (fst (subdivideAt (getFirstCurve c) 0.5))) ov)
       (point_plus (getP3 (fst (subdivideAt (getFirstCurve c) 0.5))) ov)"
  "getSecondCurve (splitAndShift ov c) =
     Some (BezierCurve (point_plus (getP0 (snd (subdivideAt (getFirstCurve c) 0.5))) ov)
       (point_plus (getP1 (snd (subdivideAt (getFirstCurve c) 0.5))) ov)
       (getP2 (snd (subdivideAt (getFirstCurve c) 0.5)))
       (getP3 (snd (subdivideAt (getFirstCurve c) 0.5))))"
  by (simp_all add: splitAndShift_def setCurves_def Let_def)

lemma subdivideAt_anchors:
  "getP0 (fst (subdivideAt c t)) = getP0 c" "getP3 (snd (subdivideAt c t)) = getP3 c"
  "getP3 (fst (subdivideAt c t)) = getP0 (snd (subdivideAt c t))"
  by (simp_all add: subdivideAt_def Let_def)

lemma divergeCurve_eq:
  "divergeCurve dir i c = splitAndShift (vector_scale (offsetAmount i) dir) c"
  by (simp add: divergeCurve_def)

lemma init_eq:
  "initActors actors emptyLayout = Inr s \<Longrightarrow> init actors = Inr (divergeOverlappingCurves s)"
  by (simp add: init_def)

lemma sqrt_example: "sqrt (25 / 144) = 5 / 12"
proof -
  have "sqrt ((5 / 12)\<^sup>2) = \<bar>5 / 12 :: real\<bar>" by (rule real_sqrt_abs)
  then show ?thesis by (simp add: power2_eq_square)
qed

lemma example_points:
  "fst (getMoviePoint M1 0 exampleLayout) = Point3d 0 (5 / 8) 0"
  "fst (getMoviePoint M2 0 exampleLayout) = Point3d 0 (25 / 24) 0"
  by (simp_all add: getMoviePoint_def getDirectorXPosition_def exampleLayout_def M1_def M2_def
      getDateYPosition_example)

lemma example_direction:
  "normalize_vec (Vector3d (- vec_y (point_minus (Point3d 0 (25 / 24) 0) (Point3d 0 (5 / 8) 0)))
     (vec_x (point_minus (Point3d 0 (25 / 24) 0) (Point3d 0 (5 / 8) 0)))
     (vec_z (point_minus (Point3d 0 (25 / 24) 0) (Point3d 0 (5 / 8) 0)))) = Vector3d (- 1) 0 0"
  by (simp add: normalize_vec_def point_minus_def vector_length_def vector_scale_def sqrt_example)

lemma example_group:
  "(MoviePair M1 M2, [0, 1, 2]) \<in> set (actorCurvesByMoviePair exampleLayout)"
  by (simp add: exampleLayout_def)

lemma example_resolved:
  assumes "i < 3"
  shows "curveStore (divergeOverlappingCurves exampleLayout) ! i =
           splitAndShift (vector_scale (offsetAmount i) (Vector3d (- 1) 0 0))
             (curveStore exampleLayout ! i)"
proof -
  have wf: "wellFormed exampleLayout"
    using initActors_example by (rule reachable_wellFormed)
  have d: "pairDirection exampleLayout (MoviePair M1 M2) = Vector3d (- 1) 0 0"
    by (simp add: pairDirection_def offsetDirectionOf_def example_points example_direction)
  from assms have i: "i < length [0, 1, 2 :: nat]" "[0, 1, 2] ! i = i" "i mod 2 ^ 32 = i"
    by (auto simp: less_Suc_eq numeral_3_eq_3)
  from resolved_curve [OF wf example_group _ i(1)] i(2,3) d show ?thesis
    by (simp add: divergeCurve_eq)
qed

lemma example_halves:
  "subdivideAt (BezierCurve (Point3d 0 (5 / 8) 0) (Point3d 0 (55 / 72) 0)
          (Point3d 0 (65 / 72) 0) (Point3d 0 (25 / 24) 0)) (1 / 2) =
     (BezierCurve (Point3d 0 (5 / 8) 0) (Point3d 0 (25 / 36) 0) (Point3d 0 (55 / 72) 0)
        (Point3d 0 (5 / 6) 0),
      BezierCurve (Point3d 0 (5 / 6) 0) (Point3d 0 (65 / 72) 0) (Point3d 0 (35 / 36) 0)
        (Point3d 0 (25 / 24) 0))"
  by (simp add: subdivideAt_def lerp_def Let_def)

lemma offsetAmount_example:
  "offsetAmount 0 = 0" "offsetAmount (Suc 0) = 1 / 20" "offsetAmount 2 = - (1 / 20)"
  by (simp_all add: offsetAmount_def offsetIncrement_def)

lemma example_curve:
  "i < 3 \<Longrightarrow> getFirstCurve (curveStore exampleLayout ! i) =
      BezierCurve (Point3d 0 (5 / 8) 0) (Point3d 0 (55 / 72) 0)
          (Point3d 0 (65 / 72) 0) (Point3d 0 (25 / 24) 0)"
  by (auto simp: exampleLayout_def newActorCurve_def less_Suc_eq numeral_3_eq_3)

lemma getActorCurves_addresses:
  "getActorCurves actor s = map (\<lambda>a. curveStore s ! a) (actorAddresses actor s)"
  by (simp add: getActorCurves_def actorAddresses_def split: option.splits)

lemma map_nth_appended:
  "map (\<lambda>a. (xs @ ys) ! a) [length xs..<length xs + length ys] = ys"
proof (rule nth_equalityI)
  show "length (map (\<lambda>a. (xs @ ys) ! a) [length xs..<length xs + length ys]) = length ys"
    by simp
next
  fix i assume "i < length (map (\<lambda>a. (xs @ ys) ! a) [length xs..<length xs + length ys])"
  then have "i < length ys" by simp
  then show "map (\<lambda>a. (xs @ ys) ! a) [length xs..<length xs + length ys] ! i = ys ! i"
    by (simp add: nth_append)
qed

lemma getDirectorXPosition_cases:
  "directorKnown tbl d \<Longrightarrow> snd (getDirectorXPosition d tbl) = tbl"
  "\<not> directorKnown tbl d \<Longrightarrow>
     getDirectorXPosition d tbl =
       (DISTANCE * real (length tbl), tbl @ [(d, DISTANCE * real (length tbl))])"
  by (auto simp: getDirectorXPosition_def directorKnown_def Let_def)

lemma directorKnown_snoc:
  "directorKnown (tbl @ [(d, x)]) d' \<longleftrightarrow> directorKnown tbl d' \<or> d' = d"
  by (auto simp: directorKnown_def map_add_def split: option.splits)

lemma getMoviePoint_eq:
  "getMoviePoint m z s =
     (Point3d (fst (getDirectorXPosition (getDirector m) (directorXPositions s)))
        (getDateYPosition (getReleaseDate m)) z,
      s\<lparr>directorXPositions := snd (getDirectorXPosition (getDirector m) (directorXPositions s))\<rparr>)"
  by (simp add: getMoviePoint_def split: prod.splits)



lemma curveDelta_spec:
  assumes "\<not> (d1 = None \<and> d2 = None)"
  shows "curveDelta a b d1 d2 = specCurveDelta a b d1 d2"
proof -
  have clamp: "(if \<bar>r\<bar> \<le> MAX_DELTA then r else MAX_DELTA * sign r) =
      max (- MAX_DELTA) (min MAX_DELTA r)" for r
    by (simp add: MAX_DELTA_def sign_def max_def min_def)
  from assms have "specSameDirector d1 d2 \<longleftrightarrow> d1 = d2"
    by (auto simp: specSameDirector_def)
  then show ?thesis
    by (simp add: curveDelta_def specCurveDelta_def Let_def clamp)
qed

lemma getDateYPosition_twins:
  "getDateYPosition \<lparr>year = 1988, day_of_year = 366\<rparr> = - (973 / 584)"
  "getDateYPosition \<lparr>year = 1989, day_of_year = Suc 0\<rparr> = - (973 / 584)"
  by (simp_all add: getDateYPosition_linear dateAsYear_def)

lemma initActors_twins: "initActors twinActors emptyLayout = Inr twinLayout"
  by (simp add: twinActors_def emptyLayout_def twinLayout_def initActorCurves_def
      sortByReleaseDate_def T1_def T2_def date_key_def walkStep_eq
      getMoviePoint_def getDirectorXPosition_def DISTANCE_def getDateYPosition_twins
      curveDelta_def segmentCurve_def MAX_DELTA_def sign_def moviePairEq_def Let_def)

lemma twin_points:
  "fst (getMoviePoint T1 0 twinLayout) = Point3d 0 (- (973 / 584)) 0"
  "fst (getMoviePoint T2 0 twinLayout) = Point3d 0 (- (973 / 584)) 0"
  by (simp_all add: getMoviePoint_def getDirectorXPosition_def twinLayout_def T1_def T2_def
      getDateYPosition_twins)

lemma sortByReleaseDate_sorted:
  assumes "None \<notin> set ws"
    and "sorted (map (\<lambda>w. date_key (getReleaseDate (the w))) ws)"
  shows "sortByReleaseDate ws = Inr ws"
  using assms by (simp add: sortByReleaseDate_def sort_key_id_if_sorted)

lemma pairDirection_explicit:
  assumes "p1 = fst (getMoviePoint (getFirstMovie moviePair) 0 s)"
    and "p2 = fst (getMoviePoint (getSecondMovie moviePair) 0 s)"
    and "perp = Vector3d (- (pt_y p2 - pt_y p1)) (pt_x p2 - pt_x p1) (pt_z p2 - pt_z p1)"
    and "L = sqrt (vec_x perp * vec_x perp + vec_y perp * vec_y perp + vec_z perp * vec_z perp)"
  shows "pairDirection s moviePair = Vector3d (vec_x perp / L) (vec_y perp / L) (vec_z perp / L)"
proof -
  define dx where "dx = pt_x p2 - pt_x p1"
  define dy where "dy = pt_y p2 - pt_y p1"
  define dz where "dz = pt_z p2 - pt_z p1"
  have v: "point_minus p2 p1 = Vector3d dx dy dz"
    by (simp add: point_minus_def dx_def dy_def dz_def)
  have perp: "perp = Vector3d (- dy) dx dz"
    unfolding assms(3) dx_def dy_def dz_def ..
  have "pairDirection s moviePair = normalize_vec (Vector3d (- dy) dx dz)"
    unfolding pairDirection_def offsetDirectionOf_def assms(1,2) [symmetric] v Let_def
    by simp
  also have "\<dots> = Vector3d (- dy / vector_length (Vector3d (- dy) dx dz))
      (dx / vector_length (Vector3d (- dy) dx dz)) (dz / vector_length (Vector3d (- dy) dx dz))"
    by (simp add: normalize_vec_def vector_scale_def)
  also have "vector_length (Vector3d (- dy) dx dz) = L"
    by (simp add: assms(4) perp vector_length_def)
  finally show ?thesis by (simp add: perp)
qed

lemma movie_point_z: "pt_z (fst (getMoviePoint m z s)) = z"
  by (simp add: getMoviePoint_eq)


section \<open>The claims about the curve builder and the overlap resolver\<close>

text \<open>
  Claim C1 speaks of every group of at least two curves. Two actors in two movies of one
  director, released on day 366 of 1988 and on day 1 of 1989, give a group of two whose
  movies share one point: \<open>v = p2 - p1\<close> is the zero vector, and \<open>(- v.y, v.x, v.z)\<close>
  has no multiple of length 1 (the normalisation of the model leaves it zero). The last
  conjunct is line 137 at the index \<open>2 ^ 32 - 1\<close>, where \<^verbatim>\<open>actorIndex+1\<close> wraps
  to 0.
\<close>

theorem coinciding_movies_have_no_direction:
  "init twinActors = Inr (divergeOverlappingCurves twinLayout) \<and>
   (MoviePair T1 T2, [0, 1]) \<in> set (actorCurvesByMoviePair twinLayout) \<and>
   fst (getMoviePoint T1 0 twinLayout) = Point3d 0 (- (973 / 584)) 0 \<and>
   fst (getMoviePoint T2 0 twinLayout) = Point3d 0 (- (973 / 584)) 0 \<and>
   point_minus (fst (getMoviePoint T2 0 twinLayout)) (fst (getMoviePoint T1 0 twinLayout)) =
     Vector3d 0 0 0 \<and>
   pairDirection twinLayout (MoviePair T1 T2) = Vector3d 0 0 0 \<and>
   vector_length (pairDirection twinLayout (MoviePair T1 T2)) \<noteq> 1 \<and>
   offsetAmount (2 ^ 32 - 1) = 0"
proof -
  have 1: "init twinActors = Inr (divergeOverlappingCurves twinLayout)"
    using initActors_twins by (rule init_eq)
  have 2: "(MoviePair T1 T2, [0, 1]) \<in> set (actorCurvesByMoviePair twinLayout)"
    by (simp add: twinLayout_def)
  have 3: "point_minus (Point3d 0 (- (973 / 584)) 0) (Point3d 0 (- (973 / 584)) 0) = Vector3d 0 0 0"
    by (simp add: point_minus_def)
  have 4: "pairDirection twinLayout (MoviePair T1 T2) = Vector3d 0 0 0"
    by (simp add: pairDirection_def offsetDirectionOf_def twin_points point_minus_def
        normalize_vec_def vector_scale_def)
  have 5: "vector_length (Vector3d 0 0 0) \<noteq> 1"
    by (simp add: vector_length_def)
  have 6: "offsetAmount (2 ^ 32 - 1) = 0"
    by (simp add: offsetAmount_def)
  from 1 2 3 4 5 6 twin_points show ?thesis by simp
qed

text \<open>
  Claim C1, as amended: in every state that the curve builder reaches, for a movie pair
  with at least two and fewer than \<open>2 ^ 32\<close> curves whose two movies have different
  points \<open>p1\<close> and \<open>p2\<close> at \<open>z = 0\<close>, the overlap resolver moves the control points
  around the junction of the curve at insertion index \<open>i\<close> by \<open>offset * direction\<close>:
  \<open>offset\<close> is 0 when \<open>i = 0\<close> and otherwise has the magnitude
  \<open>((i + 1) div 2) * 0.05\<close> and the sign \<open>-1\<close> for even and \<open>+1\<close> for odd \<open>i\<close>,
  and \<open>direction\<close> is \<open>(- v.y, v.x, v.z)\<close> of \<open>v = p2 - p1\<close> divided by its length
  \<open>L > 0\<close>, a vector of length 1.
\<close>

theorem overlap_offsets:
  assumes "initActors actors emptyLayout = Inr s"
    and "(moviePair, addrs) \<in> set (actorCurvesByMoviePair s)"
    and "2 \<le> length addrs" and "length addrs < 2 ^ 32" and "i < length addrs"
    and "p1 = fst (getMoviePoint (getFirstMovie moviePair) 0 s)"
    and "p2 = fst (getMoviePoint (getSecondMovie moviePair) 0 s)"
    and "p1 \<noteq> p2"
    and "perp = Vector3d (- (pt_y p2 - pt_y p1)) (pt_x p2 - pt_x p1) (pt_z p2 - pt_z p1)"
    and "L = sqrt (vec_x perp * vec_x perp + vec_y perp * vec_y perp + vec_z perp * vec_z perp)"
    and "direction = Vector3d (vec_x perp / L) (vec_y perp / L) (vec_z perp / L)"
    and "offset = (if i = 0 then 0 else (if even i then - 1 else 1) * (real ((i + 1) div 2) * 0.05))"
    and "shift = (\<lambda>p. Point3d (pt_x p + offset * vec_x direction)
                    (pt_y p + offset * vec_y direction) (pt_z p + offset * vec_z direction))"
    and "c = curveStore s ! (addrs ! i)"
    and "c' = curveStore (divergeOverlappingCurves s) ! (addrs ! i)"
    and "b1 = fst (subdivideAt (getFirstCurve c) 0.5)"
    and "b2 = snd (subdivideAt (getFirstCurve c) 0.5)"
  shows "init actors = Inr (divergeOverlappingCurves s) \<and>
         pt_z p1 = 0 \<and> pt_z p2 = 0 \<and> 0 < L \<and>
         vec_x direction * vec_x direction + vec_y direction * vec_y direction +
           vec_z direction * vec_z direction = 1 \<and>
         getFirstCurve c' =
           BezierCurve (getP0 b1) (getP1 b1) (shift (getP2 b1)) (shift (getP3 b1)) \<and>
         getSecondCurve c' =
           Some (BezierCurve (shift (getP0 b2)) (shift (getP1 b2)) (getP2 b2) (getP3 b2))"
proof -
  from assms(1) have wf: "wellFormed s" by (rule reachable_wellFormed)
  have dir: "pairDirection s moviePair = direction"
    unfolding assms(11) by (rule pairDirection_explicit [OF assms(6,7,9,10)])
  have z: "pt_z p1 = 0" "pt_z p2 = 0"
    by (simp_all add: assms(6,7) movie_point_z)
  from assms(8) have "vector_length (offsetDirectionOf p1 p2) = 1"
    by (rule offsetDirectionOf_unit)
  then have "vector_length direction = 1"
    by (simp add: dir [symmetric] pairDirection_def assms(6,7))
  then have unit: "vec_x direction * vec_x direction + vec_y direction * vec_y direction +
           vec_z direction * vec_z direction = 1"
    by (simp add: vector_length_def)
  have "L = vector_length perp" by (simp add: assms(10) vector_length_def)
  moreover from assms(8) have "perp \<noteq> Vector3d 0 0 0"
    by (cases p1; cases p2) (auto simp: assms(9))
  then have "vector_length perp \<noteq> 0" by (simp add: vector_length_zero_iff)
  moreover have "0 \<le> vector_length perp" by (simp add: vector_length_def)
  ultimately have L: "0 < L" by simp
  from assms(4,5) have i: "i mod 2 ^ 32 = i" "i + 1 < 2 ^ 32" by simp_all
  have amt: "offsetAmount i = offset"
    unfolding assms(12) by (rule offsetAmount_formula) (rule i(2))
  from resolved_curve [OF wf assms(2,3,5)] i(1)
  have "c' = splitAndShift (vector_scale offset direction) c"
    by (simp add: divergeCurve_eq dir amt assms(14,15))
  then have curves: "getFirstCurve c' =
           BezierCurve (getP0 b1) (getP1 b1) (shift (getP2 b1)) (shift (getP3 b1)) \<and>
         getSecondCurve c' =
           Some (BezierCurve (shift (getP0 b2)) (shift (getP1 b2)) (getP2 b2) (getP3 b2))"
    by (simp add: splitAndShift_parts assms(13,16,17) point_plus_def vector_scale_def)
  from init_eq [OF assms(1)] z L unit curves show ?thesis by simp
qed

theorem overlap_offsets_witness:
  "init exampleActors = Inr (divergeOverlappingCurves exampleLayout) \<and>
   getFirstCurve (curveStore (divergeOverlappingCurves exampleLayout) ! 2) =
     BezierCurve (Point3d 0 (5 / 8) 0) (Point3d 0 (25 / 36) 0) (Point3d (1 / 20) (55 / 72) 0)
       (Point3d (1 / 20) (5 / 6) 0) \<and>
   getSecondCurve (curveStore (divergeOverlappingCurves exampleLayout) ! 2) =
     Some (BezierCurve (Point3d (1 / 20) (5 / 6) 0) (Point3d (1 / 20) (65 / 72) 0)
       (Point3d 0 (35 / 36) 0) (Point3d 0 (25 / 24) 0))"
proof -
  have ne: "fst (getMoviePoint (getFirstMovie (MoviePair M1 M2)) 0 exampleLayout) \<noteq>
      fst (getMoviePoint (getSecondMovie (MoviePair M1 M2)) 0 exampleLayout)"
    by (simp add: example_points)
  from overlap_offsets [OF initActors_example example_group _ _ _ refl refl ne refl refl refl
      refl refl refl refl refl refl, of 2]
  show ?thesis
    by (simp add: example_points example_curve example_halves sqrt_example)
qed

text \<open>
  Claim C2 says that of the first half the second and third control points are
  shifted. In the group of three of the example, the curve at index 1 keeps the second
  control point of its first half, and the third and the fourth (the junction) move
  by \<open>(- 1/20, 0, 0)\<close>.
\<close>

theorem split_shifts_third_and_fourth_point:
  "init exampleActors = Inr (divergeOverlappingCurves exampleLayout) \<and>
   (MoviePair M1 M2, [0, 1, 2]) \<in> set (actorCurvesByMoviePair exampleLayout) \<and>
   fst (subdivideAt (getFirstCurve (curveStore exampleLayout ! 1)) 0.5) =
     BezierCurve (Point3d 0 (5 / 8) 0) (Point3d 0 (25 / 36) 0) (Point3d 0 (55 / 72) 0)
       (Point3d 0 (5 / 6) 0) \<and>
   getFirstCurve (curveStore (divergeOverlappingCurves exampleLayout) ! 1) =
     BezierCurve (Point3d 0 (5 / 8) 0) (Point3d 0 (25 / 36) 0) (Point3d (- (1 / 20)) (55 / 72) 0)
       (Point3d (- (1 / 20)) (5 / 6) 0) \<and>
   getP1 (getFirstCurve (curveStore (divergeOverlappingCurves exampleLayout) ! 1)) =
     getP1 (fst (subdivideAt (getFirstCurve (curveStore exampleLayout ! 1)) 0.5)) \<and>
   getP3 (getFirstCurve (curveStore (divergeOverlappingCurves exampleLayout) ! 1)) \<noteq>
     getP3 (fst (subdivideAt (getFirstCurve (curveStore exampleLayout ! 1)) 0.5))"
proof -
  note c = example_curve
  have "getFirstCurve (curveStore (divergeOverlappingCurves exampleLayout) ! 1) =
     BezierCurve (Point3d 0 (5 / 8) 0) (Point3d 0 (25 / 36) 0) (Point3d (- (1 / 20)) (55 / 72) 0)
       (Point3d (- (1 / 20)) (5 / 6) 0)"
    using example_resolved [of 1]
    by (simp add: splitAndShift_parts c example_halves offsetAmount_example vector_scale_def
        point_plus_def)
  with c example_halves example_group init_eq [OF initActors_example] show ?thesis
    by simp
qed

text \<open>
  Claim C2, as amended: the overlap resolver replaces every curve of a group of at least
  two by the two halves of its subdivision at \<open>0.5\<close>, where of the first half the third
  and fourth control points (\<open>P2\<close>, the trailing handle, and \<open>P3\<close>, the junction)
  and of the second half the first and second control points (\<open>P0\<close>, the junction,
  and \<open>P1\<close>, the leading handle) are shifted by the offset vector and nothing else
  is; the first half starts and the second half ends where the curve did. A curve in a
  group of one is left as it was, a single curve.
\<close>

theorem overlap_split:
  assumes "initActors actors emptyLayout = Inr s"
    and "(moviePair, addrs) \<in> set (actorCurvesByMoviePair s)"
    and "i < length addrs"
    and "c = curveStore s ! (addrs ! i)"
    and "c' = curveStore (divergeOverlappingCurves s) ! (addrs ! i)"
    and "b1 = fst (subdivideAt (getFirstCurve c) 0.5)"
    and "b2 = snd (subdivideAt (getFirstCurve c) 0.5)"
    and "offsetVector = vector_scale (offsetAmount (i mod 2 ^ 32)) (pairDirection s moviePair)"
  shows "getSecondCurve c = None \<and>
         (2 \<le> length addrs \<longrightarrow>
            getFirstCurve c' =
              BezierCurve (getP0 b1) (getP1 b1) (point_plus (getP2 b1) offsetVector)
                (point_plus (getP3 b1) offsetVector) \<and>
            getSecondCurve c' =
              Some (BezierCurve (point_plus (getP0 b2) offsetVector)
                (point_plus (getP1 b2) offsetVector) (getP2 b2) (getP3 b2)) \<and>
            getP0 b1 = getP0 (getFirstCurve c) \<and> getP3 b2 = getP3 (getFirstCurve c) \<and>
            getP3 b1 = getP0 b2 \<and> getActor c' = getActor c) \<and>
         (length addrs \<le> 1 \<longrightarrow> c' = c)"
proof -
  from assms(1) have wf: "wellFormed s" by (rule reachable_wellFormed)
  from assms(2,3) have "addrs ! i \<in> set (pairAddresses s)"
    by (force simp: pairAddresses_def)
  with wf have "addrs ! i < length (curveStore s)" by (simp add: wellFormed_def)
  with wf assms(4) have single: "getSecondCurve c = None"
    by (simp add: wellFormed_def)
  have big: "getFirstCurve c' =
              BezierCurve (getP0 b1) (getP1 b1) (point_plus (getP2 b1) offsetVector)
                (point_plus (getP3 b1) offsetVector) \<and>
            getSecondCurve c' =
              Some (BezierCurve (point_plus (getP0 b2) offsetVector)
                (point_plus (getP1 b2) offsetVector) (getP2 b2) (getP3 b2)) \<and>
            getP0 b1 = getP0 (getFirstCurve c) \<and> getP3 b2 = getP3 (getFirstCurve c) \<and>
            getP3 b1 = getP0 b2 \<and> getActor c' = getActor c"
    if "2 \<le> length addrs"
  proof -
    from resolved_curve [OF wf assms(2) that assms(3)]
    have "c' = splitAndShift offsetVector c"
      by (simp add: assms(4,5,8) divergeCurve_eq)
    then show ?thesis
      by (simp add: splitAndShift_parts assms(6,7) subdivideAt_anchors)
  qed
  have small: "c' = c" if "length addrs \<le> 1"
    using untouched_curve [OF wf assms(2) that, of "addrs ! i"] assms(3)
    by (simp add: assms(4,5))
  from single big small show ?thesis by blast
qed

theorem overlap_split_witness:
  "getSecondCurve (curveStore exampleLayout ! 2) = None \<and>
   getFirstCurve (curveStore (divergeOverlappingCurves exampleLayout) ! 2) =
     BezierCurve (Point3d 0 (5 / 8) 0) (Point3d 0 (25 / 36) 0) (Point3d (1 / 20) (55 / 72) 0)
       (Point3d (1 / 20) (5 / 6) 0) \<and>
   getSecondCurve (curveStore (divergeOverlappingCurves exampleLayout) ! 2) =
     Some (BezierCurve (Point3d (1 / 20) (5 / 6) 0) (Point3d (1 / 20) (65 / 72) 0)
       (Point3d 0 (35 / 36) 0) (Point3d 0 (25 / 24) 0)) \<and>
   curveStore (divergeOverlappingCurves exampleLayout) ! 3 = curveStore exampleLayout ! 3"
proof -
  have d: "pairDirection exampleLayout (MoviePair M1 M2) = Vector3d (- 1) 0 0"
    by (simp add: pairDirection_def offsetDirectionOf_def example_points example_direction)
  note c = example_curve
  have g: "(MoviePair M2 M3, [3]) \<in> set (actorCurvesByMoviePair exampleLayout)"
    by (simp add: exampleLayout_def)
  from overlap_split [OF initActors_example example_group _ refl refl refl refl refl, of 2]
    overlap_split [OF initActors_example g _ refl refl refl refl refl, of 0]
  show ?thesis
    by (simp add: d c example_halves offsetAmount_example vector_scale_def point_plus_def)
qed

text \<open>
  Claim C3: for an actor whose \<open>N\<close> movie references all resolve, the curve builder
  returns normally and adds exactly \<open>N - 1\<close> curves (none for \<open>N = 0\<close> and
  \<open>N = 1\<close>) to the store, all of this actor and unsplit; their addresses are appended
  to the actor's sequence and each is registered once under the movie pairs. For an
  actor without earlier curves, \<open>getActorCurves\<close> then returns exactly the new curves.
\<close>

theorem curve_builder_counts:
  assumes "None \<notin> set (getMoviesStarredIn actor)"
    and "N = length (getMoviesStarredIn actor)"
    and "n = length (curveStore s)"
  shows "\<exists>s' new. initActorCurves actor s = Inr s' \<and>
           curveStore s' = curveStore s @ new \<and> length new = N - 1 \<and>
           (\<forall>c\<in>set new. getActor c = personId actor \<and> getSecondCurve c = None) \<and>
           actorAddresses (personId actor) s' =
             actorAddresses (personId actor) s @ [n..<n + (N - 1)] \<and>
           mset (pairAddresses s') = mset (pairAddresses s) + mset [n..<n + (N - 1)] \<and>
           (actorAddresses (personId actor) s = [] \<longrightarrow>
              getActorCurves (personId actor) s' = new)"
proof (cases "getMoviesStarredIn actor = []")
  case True
  with assms(2) have "initActorCurves actor s = Inr s \<and>
           curveStore s = curveStore s @ [] \<and> length ([] :: ActorCurve list) = N - 1 \<and>
           (\<forall>c\<in>set []. getActor c = personId actor \<and> getSecondCurve c = None) \<and>
           actorAddresses (personId actor) s =
             actorAddresses (personId actor) s @ [n..<n + (N - 1)] \<and>
           mset (pairAddresses s) = mset (pairAddresses s) + mset [n..<n + (N - 1)] \<and>
           (actorAddresses (personId actor) s = [] \<longrightarrow>
              getActorCurves (personId actor) s = [])"
    by (simp add: initActorCurves_empty getActorCurves_addresses)
  then show ?thesis by blast
next
  case False
  from initActorCurves_total [OF assms(1)] obtain s' where
    r: "initActorCurves actor s = Inr s'" by blast
  from initActorCurves_walk [OF r False] obtain m rest where
    ms: "mset (Some m # rest) = mset (getMoviesStarredIn actor)" and
    w: "walkMovies (personId actor) m (fst (getMoviePoint m 0 s)) rest
             (snd (getMoviePoint m 0 s)) = Inr s'" by blast
  from ms have "length (Some m # rest) = length (getMoviesStarredIn actor)"
    by (rule mset_eq_length)
  with assms(2) have len: "length rest = N - 1" by simp
  let ?s1 = "snd (getMoviePoint m 0 s)"
  have s1: "curveStore ?s1 = curveStore s" "actorAddresses (personId actor) ?s1 =
      actorAddresses (personId actor) s" "pairAddresses ?s1 = pairAddresses s"
    by (simp_all add: getMoviePoint_snd actorAddresses_def pairAddresses_def)
  from walkMovies_store [OF w] s1(1) len obtain new where
    new: "curveStore s' = curveStore s @ new" "length new = N - 1"
      "\<forall>c\<in>set new. getActor c = personId actor \<and> getSecondCurve c = None"
    by auto
  from walkMovies_actorAddresses [OF w] s1 len assms(3)
  have a: "actorAddresses (personId actor) s' =
             actorAddresses (personId actor) s @ [n..<n + (N - 1)]" by simp
  from walkMovies_pairAddresses [OF w] s1 len assms(3)
  have p: "mset (pairAddresses s') = mset (pairAddresses s) + mset [n..<n + (N - 1)]" by simp
  have g: "getActorCurves (personId actor) s' = new"
    if "actorAddresses (personId actor) s = []"
    using that a new(1,2) assms(3) map_nth_appended [of "curveStore s" new]
    by (simp add: getActorCurves_addresses)
  from r new a p g show ?thesis by blast
qed

theorem curve_builder_counts_witness:
  "(case initActorCurves \<lparr>personId = 4, getMoviesStarredIn = [Some M3, Some M2, Some M4]\<rparr>
           emptyLayout of
      Inl e \<Rightarrow> False
    | Inr s' \<Rightarrow> length (curveStore s') = 2 \<and> actorAddresses 4 s' = [0, 1] \<and>
        mset (pairAddresses s') = {#0, 1#} \<and> length (getActorCurves 4 s') = 2) \<and>
   (case initActorCurves \<lparr>personId = 5, getMoviesStarredIn = [Some M3]\<rparr> emptyLayout of
      Inl e \<Rightarrow> False
    | Inr s' \<Rightarrow> getActorCurves 5 s' = [])"
proof -
  let ?a = "\<lparr>personId = 4, getMoviesStarredIn = [Some M3, Some M2, Some M4]\<rparr>"
  let ?b = "\<lparr>personId = 5, getMoviesStarredIn = [Some M3]\<rparr>"
  have u: "[0..<2] = [0, Suc 0]" by (simp add: upt_rec)
  from curve_builder_counts [of ?a 3 0 emptyLayout]
  have 1: "case initActorCurves ?a emptyLayout of
      Inl e \<Rightarrow> False
    | Inr s' \<Rightarrow> length (curveStore s') = 2 \<and> actorAddresses 4 s' = [0, 1] \<and>
        mset (pairAddresses s') = {#0, 1#} \<and> length (getActorCurves 4 s') = 2"
    by (auto simp: emptyLayout_def actorAddresses_def pairAddresses_def u)
  from curve_builder_counts [of ?b 1 0 emptyLayout]
  have 2: "case initActorCurves ?b emptyLayout of
      Inl e \<Rightarrow> False
    | Inr s' \<Rightarrow> getActorCurves 5 s' = []"
    by (auto simp: emptyLayout_def actorAddresses_def)
  from 1 2 show ?thesis by blast
qed

text \<open>
  Claim C4 compares the directors of the previous and the current movie. The loop never
  advances \<^verbatim>\<open>lastMoviePtr\<close>: for the fourth actor of the example, with the sorted
  movies \<open>M2\<close>, \<open>M3\<close>, \<open>M4\<close>, the segment from \<open>M3\<close> to \<open>M4\<close> (one
  director) is built with the delta \<open>5/24\<close> of the comparison of \<open>M2\<close> with
  \<open>M4\<close>, not with the dampened \<open>5/72\<close>, and is registered under the pair of
  \<open>M2\<close> and \<open>M4\<close>. Two unresolved directors compare equal in the code (both lock
  to null), so the delta 3 between them is dampened to 1.
\<close>

theorem walk_keeps_first_movie:
  "initActors exampleActors emptyLayout = Inr exampleLayout \<and>
   getMoviesStarredIn (exampleActors ! 3) = [Some M3, Some M2, Some M4] \<and>
   getDirector M3 = getDirector M4 \<and> getDirector M2 \<noteq> getDirector M4 \<and>
   getFirstCurve (curveStore exampleLayout ! 4) =
     segmentCurve (Point3d 4 (5 / 4) 0) (Point3d 4 (35 / 24) 0) (5 / 24) \<and>
   curveDelta (Point3d 4 (5 / 4) 0) (Point3d 4 (35 / 24) 0) (getDirector M2) (getDirector M4)
     = 5 / 24 \<and>
   specCurveDelta (Point3d 4 (5 / 4) 0) (Point3d 4 (35 / 24) 0) (getDirector M3)
     (getDirector M4) = 5 / 72 \<and>
   (MoviePair M2 M4, [4]) \<in> set (actorCurvesByMoviePair exampleLayout) \<and>
   curveDelta (Point3d 0 0 0) (Point3d 0 3 0) None None = 1 \<and>
   specCurveDelta (Point3d 0 0 0) (Point3d 0 3 0) None None = 3"
proof -
  have 1: "getMoviesStarredIn (exampleActors ! 3) = [Some M3, Some M2, Some M4]"
    by (simp add: exampleActors_def)
  have 2: "getDirector M3 = getDirector M4 \<and> getDirector M2 \<noteq> getDirector M4"
    by (simp add: M2_def M3_def M4_def)
  have 3: "getFirstCurve (curveStore exampleLayout ! 4) =
     segmentCurve (Point3d 4 (5 / 4) 0) (Point3d 4 (35 / 24) 0) (5 / 24)"
    by (simp add: exampleLayout_def newActorCurve_def segmentCurve_def)
  have 4: "curveDelta (Point3d 4 (5 / 4) 0) (Point3d 4 (35 / 24) 0) (getDirector M2)
     (getDirector M4) = 5 / 24"
    by (simp add: curveDelta_def M2_def M4_def MAX_DELTA_def Let_def)
  have 5: "specCurveDelta (Point3d 4 (5 / 4) 0) (Point3d 4 (35 / 24) 0) (getDirector M3)
     (getDirector M4) = 5 / 72"
    by (simp add: specCurveDelta_def specSameDirector_def M3_def M4_def MAX_DELTA_def Let_def)
  have 6: "(MoviePair M2 M4, [4]) \<in> set (actorCurvesByMoviePair exampleLayout)"
    by (simp add: exampleLayout_def)
  have 7: "curveDelta (Point3d 0 0 0) (Point3d 0 3 0) None None = 1 \<and>
   specCurveDelta (Point3d 0 0 0) (Point3d 0 3 0) None None = 3"
    by (simp add: curveDelta_def specCurveDelta_def specSameDirector_def MAX_DELTA_def Let_def)
  from initActors_example 1 2 3 4 5 6 7 show ?thesis by blast
qed


text \<open>
  Claim C9 gives the signs \<open>+, -, +\<close> to the indices 0, 1, 2. In the group of three of
  the example the offset at index 1 is \<open>+ 0.05\<close> and the offset at index 2 is
  \<open>- 0.05\<close>.
\<close>

theorem group_of_three_signs:
  "init exampleActors = Inr (divergeOverlappingCurves exampleLayout) \<and>
   (MoviePair M1 M2, [0, 1, 2]) \<in> set (actorCurvesByMoviePair exampleLayout) \<and>
   offsetAmount 1 = 5 / 100 \<and> \<not> offsetAmount 1 < 0 \<and>
   offsetAmount 2 = - (5 / 100) \<and> \<not> 0 < offsetAmount 2 \<and>
   curveStore (divergeOverlappingCurves exampleLayout) ! 1 =
     splitAndShift (vector_scale (5 / 100) (Vector3d (- 1) 0 0)) (curveStore exampleLayout ! 1) \<and>
   curveStore (divergeOverlappingCurves exampleLayout) ! 2 =
     splitAndShift (vector_scale (- (5 / 100)) (Vector3d (- 1) 0 0)) (curveStore exampleLayout ! 2)"
  using example_resolved [of 1] example_resolved [of 2] example_group
    init_eq [OF initActors_example]
  by (simp add: offsetAmount_example)

text \<open>
  Claim C9, as amended: in a group of exactly three curves the offsets at the indices
  0, 1, 2 are \<open>0\<close>, \<open>+ 0.05\<close> and \<open>- 0.05\<close>. Every curve of the group is replaced by
  the two halves of its subdivision at \<open>0.5\<close>: the first half keeps the start anchor
  of the curve and its own second control point, the second half keeps its own third
  control point and the end anchor of the curve, and the third and fourth control
  points of the first half and the first and second of the second half are moved by
  the offset times the offset direction of the pair. When the two movies of the pair
  have different points, that direction is \<open>(- v.y, v.x, v.z)\<close> of \<open>v = p2 - p1\<close>
  divided by its length \<open>L > 0\<close>, a vector of length 1.
\<close>

theorem group_of_three:
  assumes "initActors actors emptyLayout = Inr s"
    and "(moviePair, addrs) \<in> set (actorCurvesByMoviePair s)"
    and "length addrs = 3" and "i < 3"
    and "offset = [0, 0.05, - 0.05] ! i"
    and "direction = pairDirection s moviePair"
    and "shift = (\<lambda>p. Point3d (pt_x p + offset * vec_x direction)
                    (pt_y p + offset * vec_y direction) (pt_z p + offset * vec_z direction))"
    and "c = curveStore s ! (addrs ! i)"
    and "c' = curveStore (divergeOverlappingCurves s) ! (addrs ! i)"
    and "b1 = fst (subdivideAt (getFirstCurve c) 0.5)"
    and "b2 = snd (subdivideAt (getFirstCurve c) 0.5)"
    and "p1 = fst (getMoviePoint (getFirstMovie moviePair) 0 s)"
    and "p2 = fst (getMoviePoint (getSecondMovie moviePair) 0 s)"
    and "perp = Vector3d (- (pt_y p2 - pt_y p1)) (pt_x p2 - pt_x p1) (pt_z p2 - pt_z p1)"
    and "L = sqrt (vec_x perp * vec_x perp + vec_y perp * vec_y perp + vec_z perp * vec_z perp)"
  shows "init actors = Inr (divergeOverlappingCurves s) \<and>
         offsetAmount i = offset \<and>
         getFirstCurve c' =
           BezierCurve (getP0 (getFirstCurve c)) (getP1 b1) (shift (getP2 b1))
             (shift (getP3 b1)) \<and>
         getSecondCurve c' =
           Some (BezierCurve (shift (getP0 b2)) (shift (getP1 b2)) (getP2 b2)
             (getP3 (getFirstCurve c))) \<and>
         (p1 \<noteq> p2 \<longrightarrow>
            0 < L \<and>
            direction = Vector3d (vec_x perp / L) (vec_y perp / L) (vec_z perp / L) \<and>
            vec_x direction * vec_x direction + vec_y direction * vec_y direction +
              vec_z direction * vec_z direction = 1)"
proof -
  from assms(1) have wf: "wellFormed s" by (rule reachable_wellFormed)
  from assms(3,4) have i: "2 \<le> length addrs" "i < length addrs" "i mod 2 ^ 32 = i" by simp_all
  from assms(4) have "i = 0 \<or> i = Suc 0 \<or> i = 2" by auto
  then have amt: "offsetAmount i = offset"
    unfolding assms(5) by (auto simp: offsetAmount_example)
  from resolved_curve [OF wf assms(2) i(1,2)] i(3)
  have "c' = splitAndShift (vector_scale offset direction) c"
    by (simp add: divergeCurve_eq amt assms(6,8,9))
  then have curves: "getFirstCurve c' =
           BezierCurve (getP0 (getFirstCurve c)) (getP1 b1) (shift (getP2 b1))
             (shift (getP3 b1)) \<and>
         getSecondCurve c' =
           Some (BezierCurve (shift (getP0 b2)) (shift (getP1 b2)) (getP2 b2)
             (getP3 (getFirstCurve c)))"
    by (simp add: splitAndShift_parts assms(7,10,11) subdivideAt_anchors point_plus_def
        vector_scale_def)
  have dir: "direction = Vector3d (vec_x perp / L) (vec_y perp / L) (vec_z perp / L)"
    unfolding assms(6) by (rule pairDirection_explicit [OF assms(12,13,14,15)])
  have nondeg: "0 < L \<and> vec_x direction * vec_x direction + vec_y direction * vec_y direction +
              vec_z direction * vec_z direction = 1" if ne: "p1 \<noteq> p2"
  proof -
    from ne have "vector_length (offsetDirectionOf p1 p2) = 1"
      by (rule offsetDirectionOf_unit)
    then have "vector_length direction = 1"
      by (simp add: pairDirection_def assms(6,12,13))
    then have unit: "vec_x direction * vec_x direction + vec_y direction * vec_y direction +
              vec_z direction * vec_z direction = 1"
      by (simp add: vector_length_def)
    have "L = vector_length perp" by (simp add: assms(15) vector_length_def)
    moreover from ne have "perp \<noteq> Vector3d 0 0 0"
      by (cases p1; cases p2) (auto simp: assms(14))
    then have "vector_length perp \<noteq> 0" by (simp add: vector_length_zero_iff)
    moreover have "0 \<le> vector_length perp" by (simp add: vector_length_def)
    ultimately have "0 < L" by simp
    with unit show ?thesis by simp
  qed
  from init_eq [OF assms(1)] amt curves dir nondeg show ?thesis by blast
qed

theorem group_of_three_witness:
  "map (\<lambda>a. (getFirstCurve (curveStore (divergeOverlappingCurves exampleLayout) ! a),
             getSecondCurve (curveStore (divergeOverlappingCurves exampleLayout) ! a)))
     [0, 1, 2] =
   [(BezierCurve (Point3d 0 (5 / 8) 0) (Point3d 0 (25 / 36) 0) (Point3d 0 (55 / 72) 0)
       (Point3d 0 (5 / 6) 0),
     Some (BezierCurve (Point3d 0 (5 / 6) 0) (Point3d 0 (65 / 72) 0) (Point3d 0 (35 / 36) 0)
       (Point3d 0 (25 / 24) 0))),
    (BezierCurve (Point3d 0 (5 / 8) 0) (Point3d 0 (25 / 36) 0) (Point3d (- (1 / 20)) (55 / 72) 0)
       (Point3d (- (1 / 20)) (5 / 6) 0),
     Some (BezierCurve (Point3d (- (1 / 20)) (5 / 6) 0) (Point3d (- (1 / 20)) (65 / 72) 0)
       (Point3d 0 (35 / 36) 0) (Point3d 0 (25 / 24) 0))),
    (BezierCurve (Point3d 0 (5 / 8) 0) (Point3d 0 (25 / 36) 0) (Point3d (1 / 20) (55 / 72) 0)
       (Point3d (1 / 20) (5 / 6) 0),
     Some (BezierCurve (Point3d (1 / 20) (5 / 6) 0) (Point3d (1 / 20) (65 / 72) 0)
       (Point3d 0 (35 / 36) 0) (Point3d 0 (25 / 24) 0)))] \<and>
   pairDirection exampleLayout (MoviePair M1 M2) = Vector3d (- 1) 0 0"
proof -
  have ne: "fst (getMoviePoint (getFirstMovie (MoviePair M1 M2)) 0 exampleLayout) \<noteq>
      fst (getMoviePoint (getSecondMovie (MoviePair M1 M2)) 0 exampleLayout)"
    by (simp add: example_points)
  note t = group_of_three [OF initActors_example example_group _ _ refl refl refl refl refl refl
      refl refl refl refl refl]
  from t [of 0] ne have d: "pairDirection exampleLayout (MoviePair M1 M2) = Vector3d (- 1) 0 0"
    by (simp add: example_points sqrt_example)
  from t [of 0] t [of 1] t [of 2] d show ?thesis
    by (simp add: example_curve example_halves)
qed

text \<open>
  Claim C10: processing an actor with exactly one movie changes nothing but the table of
  director positions: the store and both index maps stay as they are. The movie's
  director gets the next position when it has none, and then every director queried
  for the first time later gets a position that is \<open>DISTANCE\<close> greater than it would
  have been.
\<close>

theorem single_movie_actor:
  assumes "getMoviesStarredIn actor = [Some m]"
    and "tbl = directorXPositions s" and "d = getDirector m"
  shows "initActorCurves actor s =
           Inr (s\<lparr>directorXPositions := snd (getDirectorXPosition d tbl)\<rparr>) \<and>
         (directorKnown tbl d \<longrightarrow> snd (getDirectorXPosition d tbl) = tbl) \<and>
         (\<not> directorKnown tbl d \<longrightarrow>
            snd (getDirectorXPosition d tbl) = tbl @ [(d, DISTANCE * real (length tbl))] \<and>
            (\<forall>d'. d' \<noteq> d \<and> \<not> directorKnown tbl d' \<longrightarrow>
               fst (getDirectorXPosition d' (snd (getDirectorXPosition d tbl))) =
                 fst (getDirectorXPosition d' tbl) + DISTANCE))"
proof -
  have 1: "initActorCurves actor s =
           Inr (s\<lparr>directorXPositions := snd (getDirectorXPosition d tbl)\<rparr>)"
    using getMoviePoint_snd [of m 0 s]
    by (auto simp: initActorCurves_def assms sortByReleaseDate_def split: prod.splits)
  have 2: "directorKnown tbl d \<longrightarrow> snd (getDirectorXPosition d tbl) = tbl"
    by (simp add: getDirectorXPosition_cases)
  have 3: "snd (getDirectorXPosition d tbl) = tbl @ [(d, DISTANCE * real (length tbl))] \<and>
            (\<forall>d'. d' \<noteq> d \<and> \<not> directorKnown tbl d' \<longrightarrow>
               fst (getDirectorXPosition d' (snd (getDirectorXPosition d tbl))) =
                 fst (getDirectorXPosition d' tbl) + DISTANCE)"
    if "\<not> directorKnown tbl d"
  proof -
    from that have t: "snd (getDirectorXPosition d tbl) = tbl @ [(d, DISTANCE * real (length tbl))]"
      by (simp add: getDirectorXPosition_cases)
    have "fst (getDirectorXPosition d' (tbl @ [(d, DISTANCE * real (length tbl))])) =
                 fst (getDirectorXPosition d' tbl) + DISTANCE"
      if "d' \<noteq> d" "\<not> directorKnown tbl d'" for d'
    proof -
      from that have "\<not> directorKnown (tbl @ [(d, DISTANCE * real (length tbl))]) d'"
        by (simp add: directorKnown_snoc)
      with that(2) show ?thesis
        by (simp add: getDirectorXPosition_cases algebra_simps)
    qed
    with t show ?thesis by simp
  qed
  from 1 2 3 show ?thesis by blast
qed

theorem single_movie_actor_witness:
  "initActorCurves \<lparr>personId = 5, getMoviesStarredIn = [Some M3]\<rparr> emptyLayout =
     Inr (emptyLayout\<lparr>directorXPositions := [(Some 11, 0)]\<rparr>) \<and>
   fst (getDirectorXPosition (Some 10) []) = 0 \<and>
   fst (getDirectorXPosition (Some 10) [(Some 11, 0)]) = 4"
proof -
  have k: "\<not> directorKnown [] (Some (11::nat))" "\<not> directorKnown [] (Some (10::nat))"
    by (simp_all add: directorKnown_def)
  have e: "directorXPositions emptyLayout = []" "getDirector M3 = Some 11"
    by (simp_all add: emptyLayout_def M3_def)
  note t = single_movie_actor [of "\<lparr>personId = 5, getMoviesStarredIn = [Some M3]\<rparr>" M3 "[]"
      emptyLayout "Some 11"]
  from t k e have s: "snd (getDirectorXPosition (Some 11) []) = [(Some (11::nat), 0)]"
    by simp
  from t k e s have "initActorCurves \<lparr>personId = 5, getMoviesStarredIn = [Some M3]\<rparr> emptyLayout =
     Inr (emptyLayout\<lparr>directorXPositions := [(Some 11, 0)]\<rparr>) \<and>
     fst (getDirectorXPosition (Some 10) [(Some 11, 0)]) =
       fst (getDirectorXPosition (Some 10) []) + DISTANCE"
    by auto
  then show ?thesis
    by (simp add: getDirectorXPosition_def DISTANCE_def)
qed


end
